theory Spec2Isabelle
  imports Main
begin

section \<open>Data model (src/src/lib/types.ts)\<close>

text \<open>
  A value of the TypeScript type \<open>any\<close>, as \<open>JSON.parse\<close> produces it. Numbers are the
  integral ones (ids, counts, type codes); a cell of \<open>result.data\<close> is only carried, never
  inspected.
\<close>

datatype json =
  JNull
| JBool bool
| JNum int
| JStr string
| JArr "json list"
| JObj "(string \<times> json) list"

record WebLinkConfig =
  baseUrl :: string
  repoName :: string
  dbid :: int

text \<open>\<open>pageCount?\<close> and the other optional fields: \<open>None\<close> is JavaScript's \<open>undefined\<close>.\<close>

record FolderEntry =
  entry_id :: int
  entry_name :: string
  entry_type :: string
  pageCount :: "json option"
  template :: "json option"
  creationDate :: "json option"
  modificationDate :: "json option"

text \<open>One element of \<open>results\<close>; \<open>row_data\<close> is optional because the client reads it with \<open>?.\<close>.\<close>

record row =
  row_name :: string
  entryId :: int
  row_type :: int
  row_data :: "json list option"

record colType =
  col_name :: string

text \<open>The object under \<open>data\<close> (or \<open>d\<close>) of an \<open>ApiResponse\<close>. The client reads only these fields.\<close>

record payload =
  p_name :: "string option"
  totalEntries :: "int option"
  results :: "row list option"
  colTypes :: "colType list option"

record ApiResponse =
  env_data :: "payload option"
  env_d :: "payload option"

record FolderContents =
  folderName :: string
  entries :: "FolderEntry list"

section \<open>Utilities (src/src/lib/utils.ts)\<close>

text \<open>Template-literal rendering of an integral number: decimal digits, \<open>-\<close> for a negative one.\<close>

definition digitChar :: "nat \<Rightarrow> char" where
  "digitChar k = ''0123456789'' ! k"

function digits :: "nat \<Rightarrow> string" where
  "digits n = (if n < 10 then [digitChar n] else digits (n div 10) @ [digitChar (n mod 10)])"
  by pat_completeness auto
termination
  by (relation "measure (\<lambda>n. n)") auto

declare digits.simps [simp del]

definition numToString :: "int \<Rightarrow> string" where
  "numToString n = (if n < 0 then CHR ''-'' # digits (nat (- n)) else digits (nat n))"

text \<open>
  \<open>types[typeNum] || `Unknown(${typeNum})`\<close>: the table is keyed by the enum \<open>EntryType\<close>
  (Folder = 0, Document = 1, Shortcut = 2, DocumentAlt = -2); \<open>||\<close> takes the right operand
  when the left one is \<open>undefined\<close> or the empty string.
\<close>

definition types :: "(int \<times> string) list" where
  "types = [(0, ''Folder''), (1, ''Document''), (2, ''Shortcut''), (- 2, ''Document'')]"

definition getEntryType :: "int \<Rightarrow> string" where
  "getEntryType typeNum =
     (case map_of types typeNum of
        None \<Rightarrow> ''Unknown('' @ numToString typeNum @ '')''
      | Some s \<Rightarrow> if s = [] then ''Unknown('' @ numToString typeNum @ '')'' else s)"

text \<open>The legacy script's own copy (src/arcadia-files.ts, lines 213-220): three keys only.\<close>

definition types_legacy :: "(int \<times> string) list" where
  "types_legacy = [(0, ''Folder''), (1, ''Document''), (2, ''Shortcut'')]"

definition getEntryType_legacy :: "int \<Rightarrow> string" where
  "getEntryType_legacy typeNum =
     (case map_of types_legacy typeNum of
        None \<Rightarrow> ''Unknown('' @ numToString typeNum @ '')''
      | Some s \<Rightarrow> if s = [] then ''Unknown('' @ numToString typeNum @ '')'' else s)"

section \<open>The client's state and the transport\<close>

text \<open>
  Exceptions that can reach the caller: the platform's \<open>fetch\<close> rejecting (no response is
  delivered) and \<open>new URL(baseUrl)\<close> throwing on a base URL it cannot parse.
\<close>

datatype error = NetworkError | InvalidURL

text \<open>
  The outcome of \<open>response.json()\<close>: the promise rejects (the body is not JSON), or it
  resolves to a value of the declared type \<open>ApiResponse | null\<close>, where \<open>None\<close> is the
  body \<open>null\<close>.
\<close>

datatype jsonResult = Rejected | Resolved "ApiResponse option"

text \<open>
  What the client reads of a \<open>Response\<close>: the status, \<open>headers.get("location")\<close>
  (\<open>None\<close> is \<open>null\<close>), \<open>headers.getSetCookie?.() || []\<close>, and the outcome of
  \<open>response.json()\<close>. Header values are byte strings, as is \<open>string\<close>.
\<close>

record response =
  status :: int
  location :: "string option"
  setCookie :: "string list"
  json_body :: jsonResult

text \<open>\<open>try { return await response.json() } catch { return null }\<close>.\<close>

definition parsedBody :: "response \<Rightarrow> ApiResponse option" where
  "parsedBody r = (case json_body r of Rejected \<Rightarrow> None | Resolved v \<Rightarrow> v)"

text \<open>The object \<open>getFolderListing\<close> serialises into the request body.\<close>

record listingBody =
  b_repoName :: string
  b_folderId :: int
  b_getNewListing :: bool
  b_start :: int
  b_end :: int
  b_sortColumn :: string
  b_sortAscending :: bool

text \<open>\<open>RequestInit\<close> as the client uses it; an absent \<open>headers\<close> is the empty list.\<close>

record RequestInit =
  opt_method :: "string option"
  opt_headers :: "(string \<times> string) list"
  opt_body :: "listingBody option"

record request =
  req_url :: string
  req_method :: "string option"
  req_redirect :: string
  req_headers :: "(string \<times> string) list"
  req_body :: "listingBody option"

text \<open>
  The fields of the class (\<open>config\<close>, \<open>cookies\<close>) and the transport: the responses the
  backend will deliver, in order, and the requests issued so far, oldest first. A request
  issued when no response is left is rejected by the transport.
\<close>

record session =
  config :: WebLinkConfig
  cookies :: "(string \<times> string) list"
  pending :: "response list"
  sent :: "request list"

text \<open>The constructor: the jar starts empty. \<open>rs\<close> is what the backend will answer.\<close>

definition newClient :: "WebLinkConfig \<Rightarrow> response list \<Rightarrow> session" where
  "newClient cfg rs = \<lparr>config = cfg, cookies = [], pending = rs, sent = []\<rparr>"

text \<open>
  \<open>Map.prototype.set\<close>, and a key written into an object literal: an existing key keeps its
  position and takes the new value, a new key goes last.
\<close>

fun mapSet :: "'k \<Rightarrow> 'v \<Rightarrow> ('k \<times> 'v) list \<Rightarrow> ('k \<times> 'v) list" where
  "mapSet k v [] = [(k, v)]"
| "mapSet k v ((k', v') # m) = (if k' = k then (k, v) # m else (k', v') # mapSet k v m)"

subsection \<open>String operations of the platform\<close>

definition startsWith :: "string \<Rightarrow> string \<Rightarrow> bool" where
  "startsWith s p = (take (length p) s = p)"

fun indexOf :: "string \<Rightarrow> char \<Rightarrow> int" where
  "indexOf [] c = - 1"
| "indexOf (x # xs) c =
     (if x = c then 0 else (let i = indexOf xs c in if i < 0 then - 1 else i + 1))"

text \<open>
  The code units below 256 that \<open>String.prototype.trim\<close> removes: TAB, LF, VT, FF, CR,
  SP and NBSP.
\<close>

definition isWhiteSpace :: "char \<Rightarrow> bool" where
  "isWhiteSpace c = (of_char c \<in> {9, 10, 11, 12, 13, 32, 160 :: nat})"

definition trim :: "string \<Rightarrow> string" where
  "trim s = rev (dropWhile isWhiteSpace (rev (dropWhile isWhiteSpace s)))"

fun join :: "string \<Rightarrow> string list \<Rightarrow> string" where
  "join sep [] = []"
| "join sep [x] = x"
| "join sep (x # y # ys) = x @ sep @ join sep (y # ys)"

section \<open>WebLinkClient (src/src/lib/WebLinkClient.ts)\<close>

definition getCookieHeader :: "session \<Rightarrow> string" where
  "getCookieHeader s = join ''; '' (map (\<lambda>(name, val). name @ ''='' @ val) (cookies s))"

text \<open>The body of the loop of \<open>parseCookies\<close>, for one \<open>Set-Cookie\<close> value.\<close>

definition storeCookie :: "(string \<times> string) list \<Rightarrow> string \<Rightarrow> (string \<times> string) list" where
  "storeCookie jar cookie =
     (let nameValue = takeWhile (\<lambda>c. c \<noteq> CHR '';'') cookie;
          eqIdx = indexOf nameValue CHR ''=''
      in if eqIdx > 0
         then mapSet (trim (take (nat eqIdx) nameValue))
                     (trim (drop (nat (eqIdx + 1)) nameValue)) jar
         else jar)"

definition parseCookies :: "response \<Rightarrow> session \<Rightarrow> session" where
  "parseCookies r s = s\<lparr>cookies := foldl storeCookie (cookies s) (setCookie r)\<rparr>"

text \<open>
  \<open>new URL(baseUrl).origin\<close> belongs to the platform: \<open>origin\<close> is a parameter, \<open>None\<close>
  where the constructor throws.
\<close>

definition resolveUrl :: "(string \<Rightarrow> string option) \<Rightarrow> WebLinkConfig \<Rightarrow> string \<Rightarrow> error + string" where
  "resolveUrl origin cfg url =
     (if startsWith url ''http'' then Inr url
      else if startsWith url ''/'' then
        (case origin (baseUrl cfg) of None \<Rightarrow> Inl InvalidURL | Some orig \<Rightarrow> Inr (orig @ url))
      else Inr (baseUrl cfg @ ''/'' @ url))"

definition userAgent :: string where
  "userAgent = ''Mozilla/5.0 (Macintosh; Intel Mac OS X 10_15_7) AppleWebKit/537.36''"

text \<open>The \<open>headers\<close> literal of \<open>fetch\<close>: three defaults, then the caller's spread over them.\<close>

definition requestHeaders :: "string \<Rightarrow> (string \<times> string) list \<Rightarrow> (string \<times> string) list" where
  "requestHeaders cookie hs =
     foldl (\<lambda>obj (k, v). mapSet k v obj)
       [(''User-Agent'', userAgent), (''Accept'', ''*/*''), (''Cookie'', cookie)] hs"

definition isRedirect :: "response \<Rightarrow> bool" where
  "isRedirect r =
     (case location r of
        None \<Rightarrow> False
      | Some loc \<Rightarrow> loc \<noteq> [] \<and> status r \<in> set [301, 302, 303, 307, 308])"

text \<open>The URL and the second argument of the platform's \<open>fetch\<close>, as \<open>fetch\<close> builds them.\<close>

definition buildRequest :: "string \<Rightarrow> RequestInit \<Rightarrow> session \<Rightarrow> request" where
  "buildRequest fullUrl options s =
     \<lparr>req_url = fullUrl, req_method = opt_method options, req_redirect = ''manual'',
      req_headers = requestHeaders (getCookieHeader s) (opt_headers options),
      req_body = opt_body options\<rparr>"

function fetch :: "(string \<Rightarrow> string option) \<Rightarrow> string \<Rightarrow> RequestInit \<Rightarrow> session
    \<Rightarrow> (error + response) \<times> session" where
  "fetch origin url options s =
     (case resolveUrl origin (config s) url of
        Inl e \<Rightarrow> (Inl e, s)
      | Inr fullUrl \<Rightarrow>
          (let req = buildRequest fullUrl options s
           in case pending s of
                [] \<Rightarrow> (Inl NetworkError, s\<lparr>sent := sent s @ [req]\<rparr>)
              | r # rest \<Rightarrow>
                  (let s' = parseCookies r (s\<lparr>pending := rest, sent := sent s @ [req]\<rparr>)
                   in if isRedirect r then fetch origin (the (location r)) options s'
                      else (Inr r, s'))))"
  by pat_completeness auto
termination
  by (relation "measure (\<lambda>(origin, url, options, s). length (pending s))")
     (auto simp: parseCookies_def)

declare fetch.simps [simp del]

definition noOptions :: RequestInit where
  "noOptions = \<lparr>opt_method = None, opt_headers = [], opt_body = None\<rparr>"

definition initSession :: "(string \<Rightarrow> string option) \<Rightarrow> session \<Rightarrow> (error + bool) \<times> session" where
  "initSession origin s =
     (case fetch origin (baseUrl (config s) @ ''/'') noOptions s of
        (Inl e, s1) \<Rightarrow> (Inl e, s1)
      | (Inr _, s1) \<Rightarrow>
          (case fetch origin
                  (baseUrl (config s1) @ ''/Login.aspx?dbid='' @ numToString (dbid (config s1))
                     @ ''&repo='' @ repoName (config s1))
                  noOptions s1 of
             (Inl e, s2) \<Rightarrow> (Inl e, s2)
           | (Inr _, s2) \<Rightarrow> (Inr (length (cookies s2) > 0), s2)))"

text \<open>\<open>response.ok\<close>: the status is in the range 200-299.\<close>

definition ok :: "response \<Rightarrow> bool" where
  "ok r = (200 \<le> status r \<and> status r \<le> 299)"

definition listingOptions :: "listingBody \<Rightarrow> RequestInit" where
  "listingOptions body =
     \<lparr>opt_method = Some ''POST'',
      opt_headers = [(''Content-Type'', ''application/json; charset=utf-8''),
                     (''Accept'', ''application/json''),
                     (''X-Requested-With'', ''XMLHttpRequest'')],
      opt_body = Some body\<rparr>"

text \<open>The result \<open>None\<close> is \<open>null\<close>; a rejection of the transport is not caught here.\<close>

definition getFolderListing :: "(string \<Rightarrow> string option) \<Rightarrow> int \<Rightarrow> int \<Rightarrow> int \<Rightarrow> session
    \<Rightarrow> (error + ApiResponse option) \<times> session" where
  "getFolderListing origin folderId start endIdx s =
     (let url = baseUrl (config s) @ ''/FolderListingService.aspx/GetFolderListing2'';
          body = \<lparr>b_repoName = repoName (config s), b_folderId = folderId,
                   b_getNewListing = True, b_start = start, b_end = endIdx,
                   b_sortColumn = ''name'', b_sortAscending = True\<rparr>
      in case fetch origin url (listingOptions body) s of
           (Inl e, s') \<Rightarrow> (Inl e, s')
         | (Inr r, s') \<Rightarrow> (Inr (if \<not> ok r then None else parsedBody r), s'))"

subsection \<open>Decoding a page\<close>

text \<open>\<open>response?.data || response?.d\<close>: an object is truthy, so \<open>data\<close> wins when present.\<close>

definition envelopeData :: "ApiResponse option \<Rightarrow> payload option" where
  "envelopeData resp =
     (case resp of
        None \<Rightarrow> None
      | Some env \<Rightarrow> (case env_data env of Some p \<Rightarrow> Some p | None \<Rightarrow> env_d env))"

text \<open>\<open>Array.prototype.findIndex\<close>: the first index whose element satisfies \<open>P\<close>, else -1.\<close>

fun findIndex :: "('a \<Rightarrow> bool) \<Rightarrow> 'a list \<Rightarrow> int" where
  "findIndex P [] = - 1"
| "findIndex P (x # xs) =
     (if P x then 0 else (let i = findIndex P xs in if i < 0 then - 1 else i + 1))"

text \<open>\<open>idx >= 0 ? result.data?.[idx] : undefined\<close>; an index past the end reads \<open>undefined\<close>.\<close>

definition cellAt :: "int \<Rightarrow> row \<Rightarrow> json option" where
  "cellAt idx result =
     (if idx \<ge> 0
      then (case row_data result of
              None \<Rightarrow> None
            | Some cells \<Rightarrow> if nat idx < length cells then Some (cells ! nat idx) else None)
      else None)"

definition toEntry :: "int \<Rightarrow> int \<Rightarrow> int \<Rightarrow> int \<Rightarrow> row \<Rightarrow> FolderEntry" where
  "toEntry pageCountIdx templateIdx creationDateIdx modificationDateIdx result =
     \<lparr>entry_id = entryId result,
      entry_name = row_name result,
      entry_type = getEntryType (row_type result),
      pageCount = cellAt pageCountIdx result,
      template = cellAt templateIdx result,
      creationDate = cellAt creationDateIdx result,
      modificationDate = cellAt modificationDateIdx result\<rparr>"

text \<open>
  Lines 180-212 of \<open>getAllEntries\<close> and 235-262 of \<open>browseFolder\<close>, which are the same code:
  the four column indices are looked up in this page's \<open>colTypes\<close>, then every row is
  converted.
\<close>

definition decodePage :: "payload \<Rightarrow> FolderEntry list" where
  "decodePage dat =
     (let rows = (case results dat of None \<Rightarrow> [] | Some rs \<Rightarrow> rs);
          cols = (case colTypes dat of None \<Rightarrow> [] | Some cs \<Rightarrow> cs);
          pageCountIdx = findIndex (\<lambda>c. col_name c = ''PageCount'') cols;
          templateIdx = findIndex (\<lambda>c. col_name c = ''TemplateName'') cols;
          creationDateIdx = findIndex (\<lambda>c. col_name c = ''CreationDate'') cols;
          modificationDateIdx = findIndex (\<lambda>c. col_name c = ''LastModified'') cols
      in map (toEntry pageCountIdx templateIdx creationDateIdx modificationDateIdx) rows)"

text \<open>\<open>data.name || ""\<close> and \<open>data.totalEntries || 0\<close>.\<close>

definition nameOr :: "string option \<Rightarrow> string" where
  "nameOr n = (case n of None \<Rightarrow> [] | Some x \<Rightarrow> if x = [] then [] else x)"

definition totalOr :: "int option \<Rightarrow> int" where
  "totalOr n = (case n of None \<Rightarrow> 0 | Some x \<Rightarrow> if x = 0 then 0 else x)"

definition pageSize :: int where
  "pageSize = 500"

text \<open>
  The \<open>do ... while (start < totalEntries)\<close> loop of \<open>getAllEntries\<close>; the arguments after
  \<open>folderId\<close> are its local variables.
\<close>

function getAllEntries_loop :: "(string \<Rightarrow> string option) \<Rightarrow> int \<Rightarrow> int \<Rightarrow> int \<Rightarrow> bool \<Rightarrow> string
    \<Rightarrow> FolderEntry list \<Rightarrow> session \<Rightarrow> (error + FolderContents) \<times> session" where
  "getAllEntries_loop origin folderId start totalCount firstFetch fname ents s =
     (case getFolderListing origin folderId start (start + pageSize) s of
        (Inl e, s') \<Rightarrow> (Inl e, s')
      | (Inr resp, s') \<Rightarrow>
          (case envelopeData resp of
             None \<Rightarrow> (Inr \<lparr>folderName = fname, entries = ents\<rparr>, s')
           | Some dat \<Rightarrow>
               (let fname' = (if firstFetch then nameOr (p_name dat) else fname);
                    total' = (if firstFetch then totalOr (totalEntries dat) else totalCount);
                    ents' = ents @ decodePage dat;
                    start' = start + pageSize
                in if start' < total'
                   then getAllEntries_loop origin folderId start' total' False fname' ents' s'
                   else (Inr \<lparr>folderName = fname', entries = ents'\<rparr>, s'))))"
  by pat_completeness auto
termination
  by (relation "inv_image (less_than <*lex*> less_than)
        (\<lambda>(origin, folderId, start, totalCount, firstFetch, fname, ents, s).
           (if firstFetch then 1 else 0 :: nat, nat (totalCount - start)))")
     (auto simp: pageSize_def)

declare getAllEntries_loop.simps [simp del]

definition getAllEntries :: "(string \<Rightarrow> string option) \<Rightarrow> int \<Rightarrow> session
    \<Rightarrow> (error + FolderContents) \<times> session" where
  "getAllEntries origin folderId s = getAllEntries_loop origin folderId 0 0 True [] [] s"

definition browseFolder :: "(string \<Rightarrow> string option) \<Rightarrow> int \<Rightarrow> session
    \<Rightarrow> (error + FolderContents) \<times> session" where
  "browseFolder origin folderId s =
     (case getFolderListing origin folderId 0 100 s of
        (Inl e, s') \<Rightarrow> (Inl e, s')
      | (Inr resp, s') \<Rightarrow>
          (case envelopeData resp of
             None \<Rightarrow> (Inr \<lparr>folderName = [], entries = []\<rparr>, s')
           | Some dat \<Rightarrow>
               (Inr \<lparr>folderName = nameOr (p_name dat), entries = decodePage dat\<rparr>, s')))"

definition getRootFolder :: "(string \<Rightarrow> string option) \<Rightarrow> session
    \<Rightarrow> (error + FolderContents) \<times> session" where
  "getRootFolder origin s = browseFolder origin 1 s"

section \<open>The legacy script (src/arcadia-files.ts)\<close>

text \<open>
  The script's own \<open>WebLinkClient\<close>. Its class has the jar only; the base URL, the
  repository and the origin are constants of the file. \<open>getCookieHeader\<close> and
  \<open>parseCookies\<close> are the same text as in the library and are shared here.
\<close>

definition BASE_URL :: string where
  "BASE_URL = ''https://laserfiche.arcadiaca.gov/WebLink''"

definition REPO :: string where
  "REPO = ''CityofArcadia''"

definition resolveUrl_legacy :: "string \<Rightarrow> string" where
  "resolveUrl_legacy url =
     (if startsWith url ''http'' then url
      else if startsWith url ''/'' then ''https://laserfiche.arcadiaca.gov'' @ url
      else BASE_URL @ ''/'' @ url)"

function fetch_legacy :: "string \<Rightarrow> RequestInit \<Rightarrow> session \<Rightarrow> (error + response) \<times> session" where
  "fetch_legacy url options s =
     (let fullUrl = resolveUrl_legacy url;
          req = buildRequest fullUrl options s
      in case pending s of
           [] \<Rightarrow> (Inl NetworkError, s\<lparr>sent := sent s @ [req]\<rparr>)
         | r # rest \<Rightarrow>
             (let s' = parseCookies r (s\<lparr>pending := rest, sent := sent s @ [req]\<rparr>)
              in if isRedirect r then fetch_legacy (the (location r)) options s'
                 else (Inr r, s')))"
  by pat_completeness auto
termination
  by (relation "measure (\<lambda>(url, options, s). length (pending s))")
     (auto simp: parseCookies_def)

declare fetch_legacy.simps [simp del]

definition initSession_legacy :: "session \<Rightarrow> (error + bool) \<times> session" where
  "initSession_legacy s =
     (case fetch_legacy (BASE_URL @ ''/'') noOptions s of
        (Inl e, s1) \<Rightarrow> (Inl e, s1)
      | (Inr _, s1) \<Rightarrow>
          (case fetch_legacy (BASE_URL @ ''/Login.aspx?dbid=0&repo='' @ REPO) noOptions s1 of
             (Inl e, s2) \<Rightarrow> (Inl e, s2)
           | (Inr _, s2) \<Rightarrow> (Inr (length (cookies s2) > 0), s2)))"

definition getFolderListing_legacy :: "int \<Rightarrow> int \<Rightarrow> int \<Rightarrow> session
    \<Rightarrow> (error + ApiResponse option) \<times> session" where
  "getFolderListing_legacy folderId start endIdx s =
     (let url = BASE_URL @ ''/FolderListingService.aspx/GetFolderListing2'';
          body = \<lparr>b_repoName = REPO, b_folderId = folderId,
                   b_getNewListing = True, b_start = start, b_end = endIdx,
                   b_sortColumn = ''name'', b_sortAscending = True\<rparr>
      in case fetch_legacy url (listingOptions body) s of
           (Inl e, s') \<Rightarrow> (Inl e, s')
         | (Inr r, s') \<Rightarrow> (Inr (if \<not> ok r then None else parsedBody r), s'))"

definition toEntry_legacy :: "int \<Rightarrow> int \<Rightarrow> int \<Rightarrow> int \<Rightarrow> row \<Rightarrow> FolderEntry" where
  "toEntry_legacy pageCountIdx templateIdx creationDateIdx modificationDateIdx result =
     \<lparr>entry_id = entryId result,
      entry_name = row_name result,
      entry_type = getEntryType_legacy (row_type result),
      pageCount = cellAt pageCountIdx result,
      template = cellAt templateIdx result,
      creationDate = cellAt creationDateIdx result,
      modificationDate = cellAt modificationDateIdx result\<rparr>"

definition decodePage_legacy :: "payload \<Rightarrow> FolderEntry list" where
  "decodePage_legacy dat =
     (let rows = (case results dat of None \<Rightarrow> [] | Some rs \<Rightarrow> rs);
          cols = (case colTypes dat of None \<Rightarrow> [] | Some cs \<Rightarrow> cs);
          pageCountIdx = findIndex (\<lambda>c. col_name c = ''PageCount'') cols;
          templateIdx = findIndex (\<lambda>c. col_name c = ''TemplateName'') cols;
          creationDateIdx = findIndex (\<lambda>c. col_name c = ''CreationDate'') cols;
          modificationDateIdx = findIndex (\<lambda>c. col_name c = ''LastModified'') cols
      in map (toEntry_legacy pageCountIdx templateIdx creationDateIdx modificationDateIdx) rows)"

function getAllEntries_loop_legacy :: "int \<Rightarrow> int \<Rightarrow> int \<Rightarrow> bool \<Rightarrow> string
    \<Rightarrow> FolderEntry list \<Rightarrow> session \<Rightarrow> (error + FolderContents) \<times> session" where
  "getAllEntries_loop_legacy folderId start totalCount firstFetch fname ents s =
     (case getFolderListing_legacy folderId start (start + pageSize) s of
        (Inl e, s') \<Rightarrow> (Inl e, s')
      | (Inr resp, s') \<Rightarrow>
          (case envelopeData resp of
             None \<Rightarrow> (Inr \<lparr>folderName = fname, entries = ents\<rparr>, s')
           | Some dat \<Rightarrow>
               (let fname' = (if firstFetch then nameOr (p_name dat) else fname);
                    total' = (if firstFetch then totalOr (totalEntries dat) else totalCount);
                    ents' = ents @ decodePage_legacy dat;
                    start' = start + pageSize
                in if start' < total'
                   then getAllEntries_loop_legacy folderId start' total' False fname' ents' s'
                   else (Inr \<lparr>folderName = fname', entries = ents'\<rparr>, s'))))"
  by pat_completeness auto
termination
  by (relation "inv_image (less_than <*lex*> less_than)
        (\<lambda>(folderId, start, totalCount, firstFetch, fname, ents, s).
           (if firstFetch then 1 else 0 :: nat, nat (totalCount - start)))")
     (auto simp: pageSize_def)

declare getAllEntries_loop_legacy.simps [simp del]

definition getAllEntries_legacy :: "int \<Rightarrow> session \<Rightarrow> (error + FolderContents) \<times> session" where
  "getAllEntries_legacy folderId s = getAllEntries_loop_legacy folderId 0 0 True [] [] s"

section \<open>Predicates used in the properties\<close>

text \<open>A string that \<open>trim\<close> would return unchanged: no whitespace at either end.\<close>

definition trimmed :: "string \<Rightarrow> bool" where
  "trimmed k = (case k of [] \<Rightarrow> True | c # cs \<Rightarrow> \<not> isWhiteSpace c \<and> \<not> isWhiteSpace (last k))"

definition trimmedKeys :: "session \<Rightarrow> bool" where
  "trimmedKeys s = (\<forall>k \<in> fst ` set (cookies s). trimmed k)"

text \<open>
  What a final response contributes to a listing: the payload that \<open>getFolderListing\<close>
  followed by \<open>response?.data || response?.d\<close> yields, if any.
\<close>

definition pagePayload :: "response \<Rightarrow> payload option" where
  "pagePayload r = (if ok r then envelopeData (parsedBody r) else None)"

text \<open>The pagination window a request asks for.\<close>

definition windowOf :: "request \<Rightarrow> (int \<times> int) option" where
  "windowOf q = map_option (\<lambda>b. (b_start b, b_end b)) (req_body q)"

definition rowCount :: "payload \<Rightarrow> nat" where
  "rowCount dat = (case results dat of None \<Rightarrow> 0 | Some rs \<Rightarrow> length rs)"

text \<open>
  A column as the specification reads it: the cell of the row at the first position at
  which the page's \<open>colTypes\<close> lists the name; absent when the name is not listed, when the
  row has no data array, or when the array ends before that position.
\<close>

definition columnValue :: "string \<Rightarrow> colType list \<Rightarrow> row \<Rightarrow> json option" where
  "columnValue name cols result =
     (if name \<in> col_name ` set cols
      then (case row_data result of
              None \<Rightarrow> None
            | Some cells \<Rightarrow>
                (let i = length (takeWhile (\<lambda>c. col_name c \<noteq> name) cols)
                 in if i < length cells then Some (cells ! i) else None))
      else None)"

definition pageRows :: "payload \<Rightarrow> row list" where
  "pageRows dat = (case results dat of None \<Rightarrow> [] | Some rs \<Rightarrow> rs)"

definition pageColumns :: "payload \<Rightarrow> colType list" where
  "pageColumns dat = (case colTypes dat of None \<Rightarrow> [] | Some cs \<Rightarrow> cs)"

text \<open>
  The entries that a sequence of responses contributes: redirects and responses without
  a payload contribute nothing, every other response its own page, decoded on its own.
\<close>

fun decodedPages :: "response list \<Rightarrow> FolderEntry list" where
  "decodedPages [] = []"
| "decodedPages (r # rs) =
     (if isRedirect r then decodedPages rs
      else (case pagePayload r of
              None \<Rightarrow> decodedPages rs
            | Some dat \<Rightarrow> decodePage dat @ decodedPages rs))"

text \<open>
  Two responses that differ at most in the envelope: the same status and headers, and the
  same payload once \<open>data || d\<close> is taken. Two clients facing such backends, with the same
  configuration and jar.
\<close>

definition sameUpToEnvelope :: "response \<Rightarrow> response \<Rightarrow> bool" where
  "sameUpToEnvelope r r' =
     (status r' = status r \<and> location r' = location r \<and> setCookie r' = setCookie r
      \<and> envelopeData (parsedBody r') = envelopeData (parsedBody r))"

definition sameBackend :: "session \<Rightarrow> session \<Rightarrow> bool" where
  "sameBackend s t =
     (config t = config s \<and> cookies t = cookies s
      \<and> list_all2 sameUpToEnvelope (pending s) (pending t))"

subsection \<open>Fixtures\<close>

text \<open>
  \<open>ARCADIA_CONFIG\<close> of src/cli/index.ts, the origin the platform computes for its base URL,
  and a successful listing response in the current envelope.
\<close>

definition arcadiaConfig :: WebLinkConfig where
  "arcadiaConfig =
     \<lparr>baseUrl = ''https://laserfiche.arcadiaca.gov/WebLink'', repoName = ''CityofArcadia'',
      dbid = 0\<rparr>"

definition arcadiaOrigin :: "string \<Rightarrow> string option" where
  "arcadiaOrigin u =
     (if u = ''https://laserfiche.arcadiaca.gov/WebLink''
      then Some ''https://laserfiche.arcadiaca.gov'' else None)"

definition fixturePage :: "string \<Rightarrow> int option \<Rightarrow> row list \<Rightarrow> colType list \<Rightarrow> response" where
  "fixturePage n t rs cs =
     \<lparr>status = 200, location = None, setCookie = [],
      json_body = Resolved (Some \<lparr>env_data = Some \<lparr>p_name = Some n, totalEntries = t,
                                        results = Some rs, colTypes = Some cs\<rparr>,
                        env_d = None\<rparr>)\<rparr>"

definition fixtureRow :: "int \<Rightarrow> row" where
  "fixtureRow i =
     \<lparr>row_name = ''Agenda'', entryId = i, row_type = 1,
      row_data = Some [JStr ''CC - Agendas'', JNum 7]\<rparr>"

section \<open>Verified properties\<close>

lemma parsedBody_simps [simp]:
  "json_body r = Rejected \<Longrightarrow> parsedBody r = None"
  "json_body r = Resolved v \<Longrightarrow> parsedBody r = v"
  by (simp_all add: parsedBody_def)

subsection \<open>Entry types\<close>










subsection \<open>The cookie jar and the frame of \<open>fetch\<close>\<close>

lemma map_of_mapSet: "map_of (mapSet k v m) = (map_of m)(k \<mapsto> v)"
  by (induction m) (auto simp: fun_eq_iff)

lemma names_mapSet: "fst ` set (mapSet k v m) = insert k (fst ` set m)"
  by (simp add: dom_map_of_conv_image_fst [symmetric] map_of_mapSet)

lemma names_storeCookie: "fst ` set jar \<subseteq> fst ` set (storeCookie jar c)"
  by (auto simp: storeCookie_def Let_def names_mapSet)

lemma names_foldl_storeCookie: "fst ` set jar \<subseteq> fst ` set (foldl storeCookie jar cs)"
proof (induction cs arbitrary: jar)
  case Nil
  show ?case by simp
next
  case (Cons c cs)
  have "fst ` set jar \<subseteq> fst ` set (storeCookie jar c)" by (rule names_storeCookie)
  also have "\<dots> \<subseteq> fst ` set (foldl storeCookie (storeCookie jar c) cs)" by (rule Cons.IH)
  finally show ?case by simp
qed

text \<open>
  A reflexive, transitive relation that every single exchange respects holds between the
  state before \<open>fetch\<close> and the state after it.
\<close>

lemma fetch_rel:
  assumes refl: "\<And>s. R s s"
    and trans: "\<And>s t u. R s t \<Longrightarrow> R t u \<Longrightarrow> R s u"
    and sentR: "\<And>s req. R s (s\<lparr>sent := sent s @ [req]\<rparr>)"
    and step: "\<And>s r rest req. pending s = r # rest \<Longrightarrow>
                 R s (parseCookies r (s\<lparr>pending := rest, sent := sent s @ [req]\<rparr>))"
  shows "R s (snd (fetch origin url options s))"
proof (induction origin url options s rule: fetch.induct)
  case (1 origin url options s)
  show ?case
  proof (cases "resolveUrl origin (config s) url")
    case (Inl e)
    then show ?thesis by (subst fetch.simps) (simp add: refl)
  next
    case (Inr fullUrl)
    show ?thesis
    proof (cases "pending s")
      case Nil
      with Inr show ?thesis by (subst fetch.simps) (simp add: sentR Let_def)
    next
      case (Cons r rest)
      define req where "req = buildRequest fullUrl options s"
      define s' where "s' = parseCookies r (s\<lparr>pending := rest, sent := sent s @ [req]\<rparr>)"
      have R1: "R s s'" unfolding s'_def using Cons by (rule step)
      show ?thesis
      proof (cases "isRedirect r")
        case True
        have "R s' (snd (fetch origin (the (location r)) options s'))"
          using "1.IH" [OF Inr req_def Cons s'_def True] .
        with R1 have "R s (snd (fetch origin (the (location r)) options s'))" by (rule trans)
        moreover have "fetch origin url options s = fetch origin (the (location r)) options s'"
          using Inr Cons True by (subst fetch.simps) (simp add: Let_def req_def s'_def)
        ultimately show ?thesis by simp
      next
        case False
        have "fetch origin url options s = (Inr r, s')"
          using Inr Cons False by (subst fetch.simps) (simp add: Let_def req_def s'_def)
        with R1 show ?thesis by simp
      qed
    qed
  qed
qed

lemma fetch_config: "config (snd (fetch origin url options s)) = config s"
  by (rule fetch_rel [where R = "\<lambda>s t. config t = config s"]) (simp_all add: parseCookies_def)

lemma fetch_names:
  "fst ` set (cookies s) \<subseteq> fst ` set (cookies (snd (fetch origin url options s)))"
proof (rule fetch_rel [where R = "\<lambda>s t. fst ` set (cookies s) \<subseteq> fst ` set (cookies t)"])
  fix s t u :: session
  assume "fst ` set (cookies s) \<subseteq> fst ` set (cookies t)"
    and "fst ` set (cookies t) \<subseteq> fst ` set (cookies u)"
  then show "fst ` set (cookies s) \<subseteq> fst ` set (cookies u)" by (rule order_trans)
qed (simp_all add: parseCookies_def names_foldl_storeCookie)

lemma fetch_error:
  "resolveUrl origin (config s) url = Inl e \<Longrightarrow> fetch origin url options s = (Inl e, s)"
  by (subst fetch.simps) simp

lemma fetch_exhausted:
  "resolveUrl origin (config s) url = Inr fullUrl \<Longrightarrow> pending s = [] \<Longrightarrow>
   fetch origin url options s
     = (Inl NetworkError, s\<lparr>sent := sent s @ [buildRequest fullUrl options s]\<rparr>)"
  by (subst fetch.simps) (simp add: Let_def)

lemma fetch_direct:
  "resolveUrl origin (config s) url = Inr fullUrl \<Longrightarrow> pending s = r # rest \<Longrightarrow>
   \<not> isRedirect r \<Longrightarrow>
   fetch origin url options s
     = (Inr r, parseCookies r
                 (s\<lparr>pending := rest, sent := sent s @ [buildRequest fullUrl options s]\<rparr>))"
  by (subst fetch.simps) (simp add: Let_def)

lemma fetch_redirect:
  "resolveUrl origin (config s) url = Inr fullUrl \<Longrightarrow> pending s = r # rest \<Longrightarrow>
   isRedirect r \<Longrightarrow>
   fetch origin url options s
     = fetch origin (the (location r)) options
         (parseCookies r
            (s\<lparr>pending := rest, sent := sent s @ [buildRequest fullUrl options s]\<rparr>))"
  by (subst fetch.simps) (simp add: Let_def)

lemma snd_getFolderListing:
  "snd (getFolderListing origin folderId start endIdx s)
     = snd (fetch origin (baseUrl (config s) @ ''/FolderListingService.aspx/GetFolderListing2'')
              (listingOptions \<lparr>b_repoName = repoName (config s), b_folderId = folderId,
                   b_getNewListing = True, b_start = start, b_end = endIdx,
                   b_sortColumn = ''name'', b_sortAscending = True\<rparr>) s)"
  by (simp add: getFolderListing_def Let_def split: prod.splits sum.splits)

lemma getFolderListing_rel:
  assumes "\<And>s. R s s"
    and "\<And>s t u. R s t \<Longrightarrow> R t u \<Longrightarrow> R s u"
    and "\<And>s req. R s (s\<lparr>sent := sent s @ [req]\<rparr>)"
    and "\<And>s r rest req. pending s = r # rest \<Longrightarrow>
                 R s (parseCookies r (s\<lparr>pending := rest, sent := sent s @ [req]\<rparr>))"
  shows "R s (snd (getFolderListing origin folderId start endIdx s))"
  unfolding snd_getFolderListing using assms by (rule fetch_rel)

lemma getAllEntries_loop_rel:
  assumes refl: "\<And>s. R s s"
    and trans: "\<And>s t u. R s t \<Longrightarrow> R t u \<Longrightarrow> R s u"
    and sentR: "\<And>s req. R s (s\<lparr>sent := sent s @ [req]\<rparr>)"
    and step: "\<And>s r rest req. pending s = r # rest \<Longrightarrow>
                 R s (parseCookies r (s\<lparr>pending := rest, sent := sent s @ [req]\<rparr>))"
  shows "R s (snd (getAllEntries_loop origin folderId start totalCount firstFetch fname ents s))"
proof (induction origin folderId start totalCount firstFetch fname ents s
    rule: getAllEntries_loop.induct)
  case (1 origin folderId start totalCount firstFetch fname ents s)
  obtain res s' where L: "getFolderListing origin folderId start (start + pageSize) s = (res, s')"
    by (cases "getFolderListing origin folderId start (start + pageSize) s")
  have R1: "R s s'"
    using getFolderListing_rel [of R s origin folderId start "start + pageSize", OF assms] L
    by simp
  show ?case
  proof (cases res)
    case (Inl e)
    with L R1 show ?thesis by (subst getAllEntries_loop.simps) simp
  next
    case (Inr resp)
    show ?thesis
    proof (cases "envelopeData resp")
      case None
      with L Inr R1 show ?thesis by (subst getAllEntries_loop.simps) simp
    next
      case (Some dat)
      define fname' where "fname' = (if firstFetch then nameOr (p_name dat) else fname)"
      define total' where "total' = (if firstFetch then totalOr (totalEntries dat) else totalCount)"
      define ents' where "ents' = ents @ decodePage dat"
      define start' where "start' = start + pageSize"
      show ?thesis
      proof (cases "start' < total'")
        case True
        have "R s' (snd (getAllEntries_loop origin folderId start' total' False fname' ents' s'))"
          using "1.IH" [OF L [symmetric] Inr Some fname'_def total'_def ents'_def start'_def True] .
        with R1 have "R s (snd (getAllEntries_loop origin folderId start' total' False fname' ents' s'))"
          by (rule trans)
        moreover have "getAllEntries_loop origin folderId start totalCount firstFetch fname ents s
            = getAllEntries_loop origin folderId start' total' False fname' ents' s'"
          using L Inr Some True
          by (subst getAllEntries_loop.simps)
             (simp add: Let_def fname'_def total'_def ents'_def start'_def)
        ultimately show ?thesis by simp
      next
        case False
        have "getAllEntries_loop origin folderId start totalCount firstFetch fname ents s
            = (Inr \<lparr>folderName = fname', entries = ents'\<rparr>, s')"
          using L Inr Some False
          by (subst getAllEntries_loop.simps)
             (simp add: Let_def fname'_def total'_def ents'_def start'_def)
        with R1 show ?thesis by simp
      qed
    qed
  qed
qed

lemma initSession_rel:
  assumes refl: "\<And>s. R s s"
    and trans: "\<And>s t u. R s t \<Longrightarrow> R t u \<Longrightarrow> R s u"
    and sentR: "\<And>s req. R s (s\<lparr>sent := sent s @ [req]\<rparr>)"
    and step: "\<And>s r rest req. pending s = r # rest \<Longrightarrow>
                 R s (parseCookies r (s\<lparr>pending := rest, sent := sent s @ [req]\<rparr>))"
  shows "R s (snd (initSession origin s))"
proof -
  obtain res1 s1 where F1: "fetch origin (baseUrl (config s) @ ''/'') noOptions s = (res1, s1)"
    by (cases "fetch origin (baseUrl (config s) @ ''/'') noOptions s")
  have R1: "R s s1"
    using fetch_rel [of R s origin "baseUrl (config s) @ ''/''" noOptions, OF assms] F1 by simp
  show ?thesis
  proof (cases res1)
    case (Inl e)
    with F1 R1 show ?thesis by (simp add: initSession_def)
  next
    case (Inr r1)
    define url2 where "url2 = baseUrl (config s1) @ ''/Login.aspx?dbid=''
        @ numToString (dbid (config s1)) @ ''&repo='' @ repoName (config s1)"
    obtain res2 s2 where F2: "fetch origin url2 noOptions s1 = (res2, s2)"
      by (cases "fetch origin url2 noOptions s1")
    have "R s1 s2"
      using fetch_rel [of R s1 origin url2 noOptions, OF assms] F2 by simp
    with R1 have "R s s2" by (rule trans)
    moreover have "snd (initSession origin s) = s2"
      using F1 Inr F2 by (cases res2) (simp_all add: initSession_def url2_def)
    ultimately show ?thesis by simp
  qed
qed

lemma getAllEntries_rel:
  assumes "\<And>s. R s s"
    and "\<And>s t u. R s t \<Longrightarrow> R t u \<Longrightarrow> R s u"
    and "\<And>s req. R s (s\<lparr>sent := sent s @ [req]\<rparr>)"
    and "\<And>s r rest req. pending s = r # rest \<Longrightarrow>
                 R s (parseCookies r (s\<lparr>pending := rest, sent := sent s @ [req]\<rparr>))"
  shows "R s (snd (getAllEntries origin folderId s))"
  unfolding getAllEntries_def using assms by (rule getAllEntries_loop_rel)

lemma snd_browseFolder:
  "snd (browseFolder origin folderId s) = snd (getFolderListing origin folderId 0 100 s)"
  by (simp add: browseFolder_def split: prod.splits sum.splits option.splits)

lemma browseFolder_rel:
  assumes "\<And>s. R s s"
    and "\<And>s t u. R s t \<Longrightarrow> R t u \<Longrightarrow> R s u"
    and "\<And>s req. R s (s\<lparr>sent := sent s @ [req]\<rparr>)"
    and "\<And>s r rest req. pending s = r # rest \<Longrightarrow>
                 R s (parseCookies r (s\<lparr>pending := rest, sent := sent s @ [req]\<rparr>))"
  shows "R s (snd (browseFolder origin folderId s))"
  unfolding snd_browseFolder using assms by (rule getFolderListing_rel)

text \<open>Every public operation of the client, at once.\<close>

lemma operations_rel:
  assumes "\<And>s. R s s"
    and "\<And>s t u. R s t \<Longrightarrow> R t u \<Longrightarrow> R s u"
    and "\<And>s req. R s (s\<lparr>sent := sent s @ [req]\<rparr>)"
    and "\<And>s r rest req. pending s = r # rest \<Longrightarrow>
                 R s (parseCookies r (s\<lparr>pending := rest, sent := sent s @ [req]\<rparr>))"
  shows "R s (snd (fetch origin url options s))
       \<and> R s (snd (initSession origin s))
       \<and> R s (snd (getFolderListing origin folderId start endIdx s))
       \<and> R s (snd (getAllEntries origin folderId s))
       \<and> R s (snd (browseFolder origin folderId s))
       \<and> R s (snd (getRootFolder origin s))"
proof (intro conjI)
  show "R s (snd (fetch origin url options s))" using assms by (rule fetch_rel)
  show "R s (snd (initSession origin s))" using assms by (rule initSession_rel)
  show "R s (snd (getFolderListing origin folderId start endIdx s))"
    using assms by (rule getFolderListing_rel)
  show "R s (snd (getAllEntries origin folderId s))" using assms by (rule getAllEntries_rel)
  show "R s (snd (browseFolder origin folderId s))" using assms by (rule browseFolder_rel)
  show "R s (snd (getRootFolder origin s))"
    unfolding getRootFolder_def using assms by (rule browseFolder_rel)
qed

subsection \<open>Cookie accumulation\<close>

lemma map_of_storeCookie:
  "map_of (storeCookie jar c) = map_of jar
   \<or> (\<exists>n v. map_of (storeCookie jar c) = (map_of jar)(n \<mapsto> v))"
  by (auto simp: storeCookie_def Let_def map_of_mapSet)

lemma mapSet_mem: "(k, v) \<in> set (mapSet k v m)"
  by (induction m) auto

lemma mapSet_other: "(k', v') \<in> set m \<Longrightarrow> k' \<noteq> k \<Longrightarrow> (k', v') \<in> set (mapSet k v m)"
  by (induction m) auto

lemma join_contains: "x \<in> set xs \<Longrightarrow> \<exists>pre post. join sep xs = pre @ x @ post"
proof (induction sep xs rule: join.induct)
  case (1 sep)
  then show ?case by simp
next
  case (2 sep y)
  then have "join sep [y] = [] @ x @ []" by simp
  then show ?case by blast
next
  case (3 sep y z zs)
  show ?case
  proof (cases "x = y")
    case True
    then have "join sep (y # z # zs) = [] @ x @ (sep @ join sep (z # zs))" by simp
    then show ?thesis by blast
  next
    case False
    with 3 obtain pre post where "join sep (z # zs) = pre @ x @ post" by auto
    then have "join sep (y # z # zs) = (y @ sep @ pre) @ x @ post" by simp
    then show ?thesis by blast
  qed
qed

lemma getCookieHeader_contains:
  assumes "(n, v) \<in> set (cookies s)"
  shows "\<exists>pre post. getCookieHeader s = pre @ (n @ ''='' @ v) @ post"
proof -
  have "n @ ''='' @ v \<in> set (map (\<lambda>(name, val). name @ ''='' @ val) (cookies s))"
    using assms by force
  then show ?thesis unfolding getCookieHeader_def by (rule join_contains)
qed

lemma map_of_requestHeaders_foldl:
  "k \<notin> fst ` set hs \<Longrightarrow>
   map_of (foldl (\<lambda>obj (k, v). mapSet k v obj) base hs) k = map_of base k"
  by (induction hs arbitrary: base) (auto simp: map_of_mapSet)

lemma requestHeaders_Cookie:
  "''Cookie'' \<notin> fst ` set hs \<Longrightarrow> map_of (requestHeaders c hs) ''Cookie'' = Some c"
  by (simp add: requestHeaders_def map_of_requestHeaders_foldl)

lemma resolveUrl_absolute: "startsWith url ''http'' \<Longrightarrow> resolveUrl origin cfg url = Inr url"
  by (simp add: resolveUrl_def)

lemma storeCookie_A1: "storeCookie jar ''A=1'' = mapSet ''A'' ''1'' jar"
  by (simp add: storeCookie_def trim_def isWhiteSpace_def)

lemma storeCookie_B2: "storeCookie jar ''B=2'' = mapSet ''B'' ''2'' jar"
  by (simp add: storeCookie_def trim_def isWhiteSpace_def)

lemma two_responses_jar:
  assumes "setCookie r1 = [''A=1'']" and "setCookie r2 = [''B=2'']"
    and "\<not> isRedirect r1" and "\<not> isRedirect r2"
    and "pending s = r1 # r2 # rest"
    and "startsWith u1 ''http''" and "startsWith u2 ''http''"
  shows "cookies (snd (fetch origin u2 o2 (snd (fetch origin u1 o1 s))))
           = mapSet ''B'' ''2'' (mapSet ''A'' ''1'' (cookies s))"
proof -
  define s1 where "s1 = parseCookies r1
      (s\<lparr>pending := r2 # rest, sent := sent s @ [buildRequest u1 o1 s]\<rparr>)"
  have F1: "fetch origin u1 o1 s = (Inr r1, s1)"
    unfolding s1_def using assms by (intro fetch_direct resolveUrl_absolute) simp_all
  have P1: "pending s1 = r2 # rest" and C1: "cookies s1 = mapSet ''A'' ''1'' (cookies s)"
    using assms by (simp_all add: s1_def parseCookies_def storeCookie_A1)
  have "config s1 = config s" by (simp add: s1_def parseCookies_def)
  have F2: "fetch origin u2 o2 s1 = (Inr r2, parseCookies r2
      (s1\<lparr>pending := rest, sent := sent s1 @ [buildRequest u2 o2 s1]\<rparr>))"
    using assms P1 by (intro fetch_direct resolveUrl_absolute) simp_all
  show ?thesis
    using assms by (simp add: F1 F2 C1 parseCookies_def storeCookie_B2)
qed

text \<open>
  C6. The jar only grows or overwrites per name: storing a cookie leaves the jar as it is or
  sets one name, and no operation of the client removes a name. After the cookies of two
  responses carrying \<open>Set-Cookie: A=1\<close> and then \<open>Set-Cookie: B=2\<close> are parsed, the Cookie
  header, which is the jar's pairs \<open>name=value\<close> joined by \<open>; \<close>, contains \<open>A=1\<close> and
  \<open>B=2\<close>; for a jar that started empty it is \<open>A=1; B=2\<close>. Two calls of \<open>fetch\<close> answered
  by these responses leave that jar, and the next request carries that header unless the
  caller's headers set \<open>Cookie\<close> themselves.
\<close>

theorem cookie_jar_accumulates:
  "(map_of (storeCookie jar c) = map_of jar
      \<or> (\<exists>n v. map_of (storeCookie jar c) = (map_of jar)(n \<mapsto> v)))
   \<and> getCookieHeader s = join ''; '' (map (\<lambda>(name, val). name @ ''='' @ val) (cookies s))
   \<and> fst ` set (cookies s) \<subseteq> fst ` set (cookies (parseCookies r s))
   \<and> fst ` set (cookies s) \<subseteq> fst ` set (cookies (snd (fetch origin url options s)))
   \<and> fst ` set (cookies s) \<subseteq> fst ` set (cookies (snd (initSession origin s)))
   \<and> fst ` set (cookies s)
         \<subseteq> fst ` set (cookies (snd (getFolderListing origin folderId start endIdx s)))
   \<and> fst ` set (cookies s) \<subseteq> fst ` set (cookies (snd (getAllEntries origin folderId s)))
   \<and> fst ` set (cookies s) \<subseteq> fst ` set (cookies (snd (browseFolder origin folderId s)))
   \<and> fst ` set (cookies s) \<subseteq> fst ` set (cookies (snd (getRootFolder origin s)))
   \<and> (setCookie ra = [''A=1''] \<and> setCookie rb = [''B=2''] \<longrightarrow>
        (let s2 = parseCookies rb (parseCookies ra s); hdr = getCookieHeader s2
         in (''A'', ''1'') \<in> set (cookies s2) \<and> (''B'', ''2'') \<in> set (cookies s2)
            \<and> (\<exists>pre post. hdr = pre @ ''A=1'' @ post)
            \<and> (\<exists>pre post. hdr = pre @ ''B=2'' @ post)
            \<and> (cookies s = [] \<longrightarrow> hdr = ''A=1; B=2'')))
   \<and> (setCookie ra = [''A=1''] \<and> setCookie rb = [''B=2'']
        \<and> \<not> isRedirect ra \<and> \<not> isRedirect rb \<and> pending s = ra # rb # rest
        \<and> startsWith ua ''http'' \<and> startsWith ub ''http'' \<longrightarrow>
        (let s2 = snd (fetch origin ub ob (snd (fetch origin ua oa s)))
         in cookies s2 = cookies (parseCookies rb (parseCookies ra s))
            \<and> (''Cookie'' \<notin> fst ` set (opt_headers oc) \<longrightarrow>
                 map_of (req_headers (buildRequest uc oc s2)) ''Cookie''
                   = Some (getCookieHeader s2))))"
proof -
  let ?R = "\<lambda>s t. fst ` set (cookies s) \<subseteq> fst ` set (cookies t)"
  have ops: "?R s (snd (fetch origin url options s))
       \<and> ?R s (snd (initSession origin s))
       \<and> ?R s (snd (getFolderListing origin folderId start endIdx s))
       \<and> ?R s (snd (getAllEntries origin folderId s))
       \<and> ?R s (snd (browseFolder origin folderId s))
       \<and> ?R s (snd (getRootFolder origin s))"
  proof (rule operations_rel [where R = ?R])
    fix s t u :: session
    assume "?R s t" and "?R t u"
    then show "?R s u" by (rule order_trans)
  qed (simp_all add: parseCookies_def names_foldl_storeCookie)
  have pc: "?R s (parseCookies r s)"
    by (simp add: parseCookies_def names_foldl_storeCookie)
  have parsed: "let s2 = parseCookies rb (parseCookies ra s); hdr = getCookieHeader s2
         in (''A'', ''1'') \<in> set (cookies s2) \<and> (''B'', ''2'') \<in> set (cookies s2)
            \<and> (\<exists>pre post. hdr = pre @ ''A=1'' @ post)
            \<and> (\<exists>pre post. hdr = pre @ ''B=2'' @ post)
            \<and> (cookies s = [] \<longrightarrow> hdr = ''A=1; B=2'')"
    if h: "setCookie ra = [''A=1''] \<and> setCookie rb = [''B=2'']"
  proof -
    define s2 where "s2 = parseCookies rb (parseCookies ra s)"
    have jar: "cookies s2 = mapSet ''B'' ''2'' (mapSet ''A'' ''1'' (cookies s))"
      using h by (simp add: s2_def parseCookies_def storeCookie_A1 storeCookie_B2)
    have A: "(''A'', ''1'') \<in> set (cookies s2)"
      unfolding jar by (rule mapSet_other [OF mapSet_mem]) simp
    have B: "(''B'', ''2'') \<in> set (cookies s2)"
      unfolding jar by (rule mapSet_mem)
    have cA: "\<exists>pre post. getCookieHeader s2 = pre @ ''A=1'' @ post"
      using getCookieHeader_contains [OF A] by simp
    have cB: "\<exists>pre post. getCookieHeader s2 = pre @ ''B=2'' @ post"
      using getCookieHeader_contains [OF B] by simp
    have empty: "cookies s = [] \<Longrightarrow> getCookieHeader s2 = ''A=1; B=2''"
      by (simp add: getCookieHeader_def jar)
    show ?thesis
      unfolding Let_def s2_def [symmetric] using A B cA cB empty by simp
  qed
  have fetched: "let s2 = snd (fetch origin ub ob (snd (fetch origin ua oa s)))
         in cookies s2 = cookies (parseCookies rb (parseCookies ra s))
            \<and> (''Cookie'' \<notin> fst ` set (opt_headers oc) \<longrightarrow>
                 map_of (req_headers (buildRequest uc oc s2)) ''Cookie''
                   = Some (getCookieHeader s2))"
    if h: "setCookie ra = [''A=1''] \<and> setCookie rb = [''B=2'']
        \<and> \<not> isRedirect ra \<and> \<not> isRedirect rb \<and> pending s = ra # rb # rest
        \<and> startsWith ua ''http'' \<and> startsWith ub ''http''"
  proof -
    define s2 where "s2 = snd (fetch origin ub ob (snd (fetch origin ua oa s)))"
    have "cookies s2 = mapSet ''B'' ''2'' (mapSet ''A'' ''1'' (cookies s))"
      unfolding s2_def
      using two_responses_jar [of ra rb s rest ua ub origin ob oa] h by blast
    moreover have "cookies (parseCookies rb (parseCookies ra s))
        = mapSet ''B'' ''2'' (mapSet ''A'' ''1'' (cookies s))"
      using h by (simp add: parseCookies_def storeCookie_A1 storeCookie_B2)
    ultimately have jar: "cookies s2 = cookies (parseCookies rb (parseCookies ra s))" by simp
    have hdr: "map_of (req_headers (buildRequest uc oc s2)) ''Cookie'' = Some (getCookieHeader s2)"
      if "''Cookie'' \<notin> fst ` set (opt_headers oc)"
      using that by (simp add: buildRequest_def requestHeaders_Cookie)
    show ?thesis
      unfolding Let_def s2_def [symmetric] using jar hdr by blast
  qed
  show ?thesis
    using map_of_storeCookie [of jar c] pc ops parsed fetched getCookieHeader_def [of s]
    by blast
qed

theorem cookie_jar_accumulates_witness:
  "setCookie \<lparr>status = 200, location = None, setCookie = [''A=1''], json_body = Rejected\<rparr> = [''A=1'']
   \<and> \<not> isRedirect \<lparr>status = 200, location = None, setCookie = [''A=1''], json_body = Rejected\<rparr>
   \<and> startsWith ''https://h.example/a'' ''http''
   \<and> getCookieHeader
        (parseCookies \<lparr>status = 200, location = None, setCookie = [''B=2''], json_body = Rejected\<rparr>
          (parseCookies \<lparr>status = 200, location = None, setCookie = [''A=1''], json_body = Rejected\<rparr>
            (newClient \<lparr>baseUrl = ''https://h.example/WebLink'', repoName = ''R'', dbid = 0\<rparr>
               [\<lparr>status = 200, location = None, setCookie = [''A=1''], json_body = Rejected\<rparr>,
                \<lparr>status = 200, location = None, setCookie = [''B=2''], json_body = Rejected\<rparr>])))
       = ''A=1; B=2''
   \<and> map_of (req_headers (buildRequest ''https://h.example/c'' noOptions
        (snd (fetch (\<lambda>u. None) ''https://h.example/b'' noOptions
           (snd (fetch (\<lambda>u. None) ''https://h.example/a'' noOptions
              (newClient \<lparr>baseUrl = ''https://h.example/WebLink'', repoName = ''R'', dbid = 0\<rparr>
                 [\<lparr>status = 200, location = None, setCookie = [''A=1''], json_body = Rejected\<rparr>,
                  \<lparr>status = 200, location = None, setCookie = [''B=2''], json_body = Rejected\<rparr>]))))))) ''Cookie''
       = Some ''A=1; B=2''"
proof -
  let ?ra = "\<lparr>status = 200, location = None, setCookie = [''A=1''], json_body = Rejected\<rparr>"
  let ?rb = "\<lparr>status = 200, location = None, setCookie = [''B=2''], json_body = Rejected\<rparr>"
  let ?s = "newClient \<lparr>baseUrl = ''https://h.example/WebLink'', repoName = ''R'', dbid = 0\<rparr>
              [?ra, ?rb]"
  let ?p2 = "parseCookies ?rb (parseCookies ?ra ?s)"
  let ?s2 = "snd (fetch (\<lambda>u. None) ''https://h.example/b'' noOptions
           (snd (fetch (\<lambda>u. None) ''https://h.example/a'' noOptions ?s)))"
  note T = cookie_jar_accumulates [where s = ?s and ra = ?ra and rb = ?rb and rest = "[]"
      and ua = "''https://h.example/a''" and ub = "''https://h.example/b''"
      and uc = "''https://h.example/c''"
      and oa = noOptions and ob = noOptions and oc = noOptions and origin = "\<lambda>u. None"]
  have h1: "setCookie ?ra = [''A=1'']" "setCookie ?rb = [''B=2'']"
    "\<not> isRedirect ?ra" "\<not> isRedirect ?rb" "pending ?s = [?ra, ?rb]"
    "startsWith ''https://h.example/a'' ''http''" "startsWith ''https://h.example/b'' ''http''"
    "''Cookie'' \<notin> fst ` set (opt_headers noOptions)" "cookies ?s = []"
    by (simp_all add: isRedirect_def startsWith_def newClient_def noOptions_def)
  have P: "getCookieHeader ?p2 = ''A=1; B=2''"
    using T [THEN conjunct2, THEN conjunct2, THEN conjunct2, THEN conjunct2, THEN conjunct2,
        THEN conjunct2, THEN conjunct2, THEN conjunct2, THEN conjunct2, THEN conjunct1]
      h1(1,2,9)
    by (simp only: Let_def; blast)
  have F: "cookies ?s2 = cookies ?p2
      \<and> map_of (req_headers (buildRequest ''https://h.example/c'' noOptions ?s2)) ''Cookie''
           = Some (getCookieHeader ?s2)"
    using T [THEN conjunct2, THEN conjunct2, THEN conjunct2, THEN conjunct2, THEN conjunct2,
        THEN conjunct2, THEN conjunct2, THEN conjunct2, THEN conjunct2, THEN conjunct2]
      h1(1-8)
    by (simp only: Let_def; blast)
  have "getCookieHeader ?s2 = getCookieHeader ?p2"
    using F by (simp add: getCookieHeader_def)
  with P F have "map_of (req_headers (buildRequest ''https://h.example/c'' noOptions ?s2))
      ''Cookie'' = Some ''A=1; B=2''" by simp
  with P h1(1,3,6) show ?thesis by blast
qed

subsection \<open>Which cookies are stored, and under which names\<close>

lemma indexOf_absent: "c \<notin> set s \<Longrightarrow> indexOf s c = - 1"
  by (induction s) auto

lemma indexOf_first: "c \<notin> set name \<Longrightarrow> indexOf (name @ c # rest) c = int (length name)"
  by (induction name) (auto simp: Let_def)

lemma storeCookie_no_eq:
  "CHR ''='' \<notin> set (takeWhile (\<lambda>x. x \<noteq> CHR '';'') c) \<Longrightarrow> storeCookie jar c = jar"
  by (simp add: storeCookie_def Let_def indexOf_absent)

lemma storeCookie_first_eq:
  assumes "takeWhile (\<lambda>x. x \<noteq> CHR '';'') c = name @ CHR ''='' # rest"
    and "CHR ''='' \<notin> set name"
  shows "storeCookie jar c = (if name = [] then jar else mapSet (trim name) (trim rest) jar)"
proof -
  have "indexOf (name @ CHR ''='' # rest) CHR ''='' = int (length name)"
    using assms(2) by (rule indexOf_first)
  moreover have "nat (int (length name) + 1) = Suc (length name)" by simp
  ultimately show ?thesis
    using assms(1) by (simp add: storeCookie_def Let_def)
qed

lemma last_dropWhile: "dropWhile P xs \<noteq> [] \<Longrightarrow> last (dropWhile P xs) = last xs"
proof -
  assume ne: "dropWhile P xs \<noteq> []"
  have "last xs = last (takeWhile P xs @ dropWhile P xs)" by simp
  also have "\<dots> = last (dropWhile P xs)" using ne by (rule last_appendR)
  finally show ?thesis by simp
qed

lemma trimmed_trim: "trimmed (trim s)"
proof (cases "trim s")
  case Nil
  then show ?thesis by (simp add: trimmed_def)
next
  case (Cons c cs)
  define a where "a = dropWhile isWhiteSpace s"
  define b where "b = dropWhile isWhiteSpace (rev a)"
  have t: "trim s = rev b" by (simp add: trim_def a_def b_def)
  with Cons have bne: "b \<noteq> []" by auto
  then have ane: "a \<noteq> []" by (auto simp: b_def)
  have "\<not> isWhiteSpace (hd b)" using bne unfolding b_def by (rule hd_dropWhile)
  then have L: "\<not> isWhiteSpace (last (trim s))" using bne by (simp add: t last_rev)
  have "last b = last (rev a)" using bne unfolding b_def by (rule last_dropWhile)
  also have "\<dots> = hd a" using ane by (simp add: last_rev)
  finally have "hd (trim s) = hd a" using bne by (simp add: t hd_rev)
  moreover have "\<not> isWhiteSpace (hd a)" using ane unfolding a_def by (rule hd_dropWhile)
  ultimately have "\<not> isWhiteSpace (hd (trim s))" by simp
  with L Cons show ?thesis by (simp add: trimmed_def)
qed

lemma trim_nonempty:
  assumes "\<exists>x \<in> set name. \<not> isWhiteSpace x"
  shows "trim name \<noteq> []"
proof -
  define a where "a = dropWhile isWhiteSpace name"
  have ane: "a \<noteq> []" using assms by (auto simp: a_def dropWhile_eq_Nil_conv)
  have "\<not> isWhiteSpace (hd a)" using ane unfolding a_def by (rule hd_dropWhile)
  moreover have "hd a \<in> set (rev a)" using ane by simp
  ultimately have "dropWhile isWhiteSpace (rev a) \<noteq> []"
    by (auto simp: dropWhile_eq_Nil_conv)
  then show ?thesis by (simp add: trim_def a_def)
qed

lemma storeCookie_cases:
  "storeCookie jar c = jar \<or> (\<exists>n v. storeCookie jar c = mapSet (trim n) v jar)"
  unfolding storeCookie_def Let_def by (cases "0 < indexOf (takeWhile (\<lambda>c. c \<noteq> CHR '';'') c) CHR ''=''") auto

lemma trimmedKeys_storeCookie:
  assumes "\<forall>k \<in> fst ` set jar. trimmed k"
  shows "\<forall>k \<in> fst ` set (storeCookie jar c). trimmed k"
proof -
  consider "storeCookie jar c = jar"
    | n v where "storeCookie jar c = mapSet (trim n) v jar"
    using storeCookie_cases [of jar c] by blast
  then show ?thesis
  proof cases
    case 1
    with assms show ?thesis by simp
  next
    case 2
    have "fst ` set (storeCookie jar c) = insert (trim n) (fst ` set jar)"
      unfolding 2 by (rule names_mapSet)
    with assms trimmed_trim [of n] show ?thesis by simp
  qed
qed

lemma trimmedKeys_foldl:
  "\<forall>k \<in> fst ` set jar. trimmed k \<Longrightarrow> \<forall>k \<in> fst ` set (foldl storeCookie jar cs). trimmed k"
proof (induction cs arbitrary: jar)
  case Nil
  then show ?case by simp
next
  case (Cons c cs)
  from Cons.prems have "\<forall>k \<in> fst ` set (storeCookie jar c). trimmed k"
    by (rule trimmedKeys_storeCookie)
  then have "\<forall>k \<in> fst ` set (foldl storeCookie (storeCookie jar c) cs). trimmed k"
    by (rule Cons.IH)
  then show ?case by simp
qed

lemma trimmedKeys_parseCookies: "trimmedKeys s \<Longrightarrow> trimmedKeys (parseCookies r s)"
  unfolding trimmedKeys_def parseCookies_def using trimmedKeys_foldl by simp

lemma trimmedKeys_operations:
  "(trimmedKeys s \<longrightarrow> trimmedKeys (snd (fetch origin url options s)))
   \<and> (trimmedKeys s \<longrightarrow> trimmedKeys (snd (initSession origin s)))
   \<and> (trimmedKeys s \<longrightarrow> trimmedKeys (snd (getFolderListing origin folderId start endIdx s)))
   \<and> (trimmedKeys s \<longrightarrow> trimmedKeys (snd (getAllEntries origin folderId s)))
   \<and> (trimmedKeys s \<longrightarrow> trimmedKeys (snd (browseFolder origin folderId s)))
   \<and> (trimmedKeys s \<longrightarrow> trimmedKeys (snd (getRootFolder origin s)))"
proof (rule operations_rel [where R = "\<lambda>s t. trimmedKeys s \<longrightarrow> trimmedKeys t"])
  fix s r rest req
  show "trimmedKeys s \<longrightarrow>
        trimmedKeys (parseCookies r (s\<lparr>pending := rest, sent := sent s @ [req]\<rparr>))"
    using trimmedKeys_parseCookies [of "s\<lparr>pending := rest, sent := sent s @ [req]\<rparr>" r]
    by (simp add: trimmedKeys_def)
qed (simp_all add: trimmedKeys_def)

text \<open>
  What the guard and the trimming do ensure. A \<open>Set-Cookie\<close> value is stored only when the
  first \<open>=\<close> of its segment before the first \<open>;\<close> is at an index above 0; every key of
  the jar is a trimmed string, in a new client and after every operation; a stored key is
  non-empty when the text before the \<open>=\<close> has a character that is not whitespace.
\<close>

lemma cookie_names_trimmed:
  "(CHR ''='' \<notin> set (takeWhile (\<lambda>x. x \<noteq> CHR '';'') cn) \<longrightarrow> storeCookie jar cn = jar)
   \<and> (takeWhile (\<lambda>x. x \<noteq> CHR '';'') c = name @ CHR ''='' # rest \<and> CHR ''='' \<notin> set name \<longrightarrow>
        storeCookie jar c = (if name = [] then jar else mapSet (trim name) (trim rest) jar)
        \<and> trimmed (trim name)
        \<and> ((\<exists>x \<in> set name. \<not> isWhiteSpace x) \<longrightarrow> trim name \<noteq> []))
   \<and> trimmedKeys (newClient cfg rs)
   \<and> (trimmedKeys s \<longrightarrow>
        trimmedKeys (parseCookies r s)
        \<and> trimmedKeys (snd (fetch origin url options s))
        \<and> trimmedKeys (snd (initSession origin s))
        \<and> trimmedKeys (snd (getFolderListing origin folderId start endIdx s))
        \<and> trimmedKeys (snd (getAllEntries origin folderId s))
        \<and> trimmedKeys (snd (browseFolder origin folderId s))
        \<and> trimmedKeys (snd (getRootFolder origin s)))"
proof (intro conjI impI)
  show "storeCookie jar cn = jar"
    if "CHR ''='' \<notin> set (takeWhile (\<lambda>x. x \<noteq> CHR '';'') cn)"
    using that by (rule storeCookie_no_eq)
  show "storeCookie jar c = (if name = [] then jar else mapSet (trim name) (trim rest) jar)"
    if "takeWhile (\<lambda>x. x \<noteq> CHR '';'') c = name @ CHR ''='' # rest \<and> CHR ''='' \<notin> set name"
    using that by (intro storeCookie_first_eq) simp_all
  show "trimmed (trim name)" by (rule trimmed_trim)
  show "trim name \<noteq> []" if "\<exists>x \<in> set name. \<not> isWhiteSpace x"
    using that by (rule trim_nonempty)
  show "trimmedKeys (newClient cfg rs)" by (simp add: trimmedKeys_def newClient_def)
  show "trimmedKeys (parseCookies r s)" if "trimmedKeys s"
    using that by (rule trimmedKeys_parseCookies)
  show "trimmedKeys (snd (fetch origin url options s))" if "trimmedKeys s"
    using that trimmedKeys_operations [of s origin url options] by blast
  show "trimmedKeys (snd (initSession origin s))" if "trimmedKeys s"
    using that trimmedKeys_operations [of s origin] by blast
  show "trimmedKeys (snd (getFolderListing origin folderId start endIdx s))" if "trimmedKeys s"
    using that trimmedKeys_operations [of s origin _ _ folderId start endIdx] by blast
  show "trimmedKeys (snd (getAllEntries origin folderId s))" if "trimmedKeys s"
    using that trimmedKeys_operations [of s origin _ _ folderId] by blast
  show "trimmedKeys (snd (browseFolder origin folderId s))" if "trimmedKeys s"
    using that trimmedKeys_operations [of s origin _ _ folderId] by blast
  show "trimmedKeys (snd (getRootFolder origin s))" if "trimmedKeys s"
    using that trimmedKeys_operations [of s origin] by blast
qed

lemma cookie_names_trimmed_example:
  "CHR ''='' \<notin> set (takeWhile (\<lambda>x. x \<noteq> CHR '';'') ''flag; Path=/'')
   \<and> storeCookie [(''a'', ''b'')] ''flag; Path=/'' = [(''a'', ''b'')]
   \<and> takeWhile (\<lambda>x. x \<noteq> CHR '';'') '' sid = abc ; Path=/'' = '' sid '' @ CHR ''='' # '' abc ''
   \<and> CHR ''='' \<notin> set '' sid ''
   \<and> (\<exists>x \<in> set '' sid ''. \<not> isWhiteSpace x)
   \<and> storeCookie [(''a'', ''b'')] '' sid = abc ; Path=/'' = [(''a'', ''b''), (''sid'', ''abc'')]
   \<and> trimmedKeys (newClient \<lparr>baseUrl = ''https://h.example/WebLink'', repoName = ''R'', dbid = 0\<rparr>
        [\<lparr>status = 200, location = None, setCookie = ['' sid = abc ; Path=/''], json_body = Rejected\<rparr>])
   \<and> trimmedKeys (snd (fetch (\<lambda>u. None) ''https://h.example/a'' noOptions
        (newClient \<lparr>baseUrl = ''https://h.example/WebLink'', repoName = ''R'', dbid = 0\<rparr>
          [\<lparr>status = 200, location = None, setCookie = ['' sid = abc ; Path=/''],
            json_body = Rejected\<rparr>])))"
  using cookie_names_trimmed [where cn = "''flag; Path=/''" and jar = "[(''a'', ''b'')]"
      and c = "'' sid = abc ; Path=/''" and name = "'' sid ''" and rest = "'' abc ''"
      and cfg = "\<lparr>baseUrl = ''https://h.example/WebLink'', repoName = ''R'', dbid = 0\<rparr>"
      and rs = "[\<lparr>status = 200, location = None, setCookie = ['' sid = abc ; Path=/''],
                  json_body = Rejected\<rparr>]"
      and s = "newClient \<lparr>baseUrl = ''https://h.example/WebLink'', repoName = ''R'', dbid = 0\<rparr>
          [\<lparr>status = 200, location = None, setCookie = ['' sid = abc ; Path=/''],
            json_body = Rejected\<rparr>]"
      and r = "\<lparr>status = 200, location = None, setCookie = [], json_body = Rejected\<rparr>"
      and origin = "\<lambda>u. None" and url = "''https://h.example/a''" and options = noOptions
      and folderId = 0 and start = 0 and endIdx = 0]
  by (simp add: trim_def isWhiteSpace_def)

text \<open>
  C10. Every key of the jar is to be a non-empty trimmed string: the guard \<open>eqIdx > 0\<close>
  skips a \<open>Set-Cookie\<close> value with no \<open>=\<close> and one whose name is empty, as \<open>=1\<close>. The
  code breaks this. The guard is tested before the name is trimmed, so a value whose name
  is a no-break space (byte A0, which \<open>trim\<close> removes) has its \<open>=\<close> at index 1, passes the
  guard and is stored under the empty name.
\<close>

theorem empty_cookie_name_stored:
  "storeCookie [] ''=1'' = []
   \<and> storeCookie [] ''flag'' = []
   \<and> indexOf [CHR 0xA0, CHR ''='', CHR ''1''] CHR ''='' = 1
   \<and> trim [CHR 0xA0] = []
   \<and> cookies (parseCookies
        \<lparr>status = 200, location = None, setCookie = [[CHR 0xA0, CHR ''='', CHR ''1'']],
         json_body = Rejected\<rparr>
        (newClient \<lparr>baseUrl = ''https://h.example/WebLink'', repoName = ''R'', dbid = 0\<rparr> []))
     = [([], ''1'')]"
  by (simp add: parseCookies_def newClient_def storeCookie_def trim_def isWhiteSpace_def)

subsection \<open>Redirects\<close>

lemma resolveUrl_total:
  "origin (baseUrl cfg) \<noteq> None \<Longrightarrow> \<exists>fullUrl. resolveUrl origin cfg url = Inr fullUrl"
  by (auto simp: resolveUrl_def)

lemma isRedirect_iff:
  "isRedirect r \<longleftrightarrow>
     (\<exists>loc. location r = Some loc \<and> loc \<noteq> [] \<and> status r \<in> {301, 302, 303, 307, 308})"
  by (auto simp: isRedirect_def split: option.splits)

lemma parseCookies_frame:
  "config (parseCookies r s) = config s" "pending (parseCookies r s) = pending s"
  "sent (parseCookies r s) = sent s"
  by (simp_all add: parseCookies_def)

text \<open>
  A chain of redirects followed by a response that is not one: \<open>fetch\<close> returns that
  response, having consumed the chain and issued one request per response.
\<close>

lemma fetch_chain:
  assumes "origin (baseUrl (config s)) \<noteq> None"
    and "pending s = rs @ r # rest"
    and "\<forall>x \<in> set rs. isRedirect x"
    and "\<not> isRedirect r"
  shows "\<exists>s'. fetch origin url options s = (Inr r, s') \<and> pending s' = rest
            \<and> length (sent s') = length (sent s) + length rs + 1
            \<and> config s' = config s"
  using assms
proof (induction rs arbitrary: s url)
  case Nil
  obtain fullUrl where U: "resolveUrl origin (config s) url = Inr fullUrl"
    using resolveUrl_total [of origin "config s" url] Nil.prems(1) by blast
  have "fetch origin url options s = (Inr r, parseCookies r
          (s\<lparr>pending := rest, sent := sent s @ [buildRequest fullUrl options s]\<rparr>))"
    using U Nil.prems by (intro fetch_direct) simp_all
  then show ?case by (simp add: parseCookies_frame)
next
  case (Cons x rs)
  obtain fullUrl where U: "resolveUrl origin (config s) url = Inr fullUrl"
    using resolveUrl_total [of origin "config s" url] Cons.prems(1) by blast
  define s1 where "s1 = parseCookies x
          (s\<lparr>pending := rs @ r # rest, sent := sent s @ [buildRequest fullUrl options s]\<rparr>)"
  have F: "fetch origin url options s = fetch origin (the (location x)) options s1"
    unfolding s1_def using U Cons.prems by (intro fetch_redirect) simp_all
  have "\<exists>s'. fetch origin (the (location x)) options s1 = (Inr r, s') \<and> pending s' = rest
            \<and> length (sent s') = length (sent s1) + length rs + 1 \<and> config s' = config s1"
    using Cons.prems by (intro Cons.IH) (simp_all add: s1_def parseCookies_frame)
  then show ?case by (auto simp: F s1_def parseCookies_frame)
qed

lemma resolveUrl_rooted:
  "origin (baseUrl cfg) = Some orig \<Longrightarrow> resolveUrl origin cfg (CHR ''/'' # path) = Inr (orig @ CHR ''/'' # path)"
  by (simp add: resolveUrl_def startsWith_def)

lemma fetch_sent_grows: "\<exists>more. sent (snd (fetch origin url options s)) = sent s @ more"
proof (rule fetch_rel [where R = "\<lambda>s t. \<exists>more. sent t = sent s @ more"])
  fix s t u :: session
  assume "\<exists>more. sent t = sent s @ more" and "\<exists>more. sent u = sent t @ more"
  then obtain m1 m2 where "sent t = sent s @ m1" and "sent u = sent t @ m2" by blast
  then have "sent u = sent s @ (m1 @ m2)" by simp
  then show "\<exists>more. sent u = sent s @ more" by blast
qed (simp_all add: parseCookies_frame)

text \<open>The first request \<open>fetch\<close> issues is the one built from the state it starts in.\<close>

lemma fetch_sent_first:
  assumes "resolveUrl origin (config s) url = Inr fullUrl"
  shows "\<exists>more. sent (snd (fetch origin url options s))
            = sent s @ buildRequest fullUrl options s # more"
proof (cases "pending s")
  case Nil
  with assms show ?thesis by (simp add: fetch_exhausted)
next
  case (Cons r rest)
  define s' where "s' = parseCookies r
      (s\<lparr>pending := rest, sent := sent s @ [buildRequest fullUrl options s]\<rparr>)"
  have S: "sent s' = sent s @ [buildRequest fullUrl options s]"
    by (simp add: s'_def parseCookies_frame)
  show ?thesis
  proof (cases "isRedirect r")
    case True
    have "fetch origin url options s = fetch origin (the (location r)) options s'"
      unfolding s'_def using assms Cons True by (rule fetch_redirect)
    moreover obtain more where
      "sent (snd (fetch origin (the (location r)) options s')) = sent s' @ more"
      using fetch_sent_grows by blast
    ultimately show ?thesis by (simp add: S)
  next
    case False
    have "fetch origin url options s = (Inr r, s')"
      unfolding s'_def using assms Cons False by (rule fetch_direct)
    then show ?thesis by (simp add: S)
  qed
qed

text \<open>
  C5, as stated, fails twice. A 302 response whose \<open>Location\<close> header is present but empty
  is returned as it is, with no second request, since the test is \<open>location && ...\<close>. And
  when the caller's own headers carry \<open>Cookie\<close>, the spread puts that value over the jar's:
  the request after the redirect is sent with \<open>x=y\<close> and without the collected \<open>A=1\<close>.
\<close>

theorem redirect_not_followed:
  "fetch (\<lambda>u. Some ''https://h.example'') ''https://h.example/a'' noOptions
     (newClient \<lparr>baseUrl = ''https://h.example/WebLink'', repoName = ''R'', dbid = 0\<rparr>
        [\<lparr>status = 302, location = Some [], setCookie = [], json_body = Rejected\<rparr>,
         \<lparr>status = 200, location = None, setCookie = [], json_body = Rejected\<rparr>])
   = (Inr \<lparr>status = 302, location = Some [], setCookie = [], json_body = Rejected\<rparr>,
      \<lparr>config = \<lparr>baseUrl = ''https://h.example/WebLink'', repoName = ''R'', dbid = 0\<rparr>,
       cookies = [],
       pending = [\<lparr>status = 200, location = None, setCookie = [], json_body = Rejected\<rparr>],
       sent = [buildRequest ''https://h.example/a'' noOptions
                 (newClient \<lparr>baseUrl = ''https://h.example/WebLink'', repoName = ''R'',
                    dbid = 0\<rparr> [])]\<rparr>)
   \<and> map (\<lambda>q. (req_url q, map_of (req_headers q) ''Cookie''))
       (sent (snd (fetch (\<lambda>u. Some ''https://h.example'') ''https://h.example/a''
          \<lparr>opt_method = None, opt_headers = [(''Cookie'', ''x=y'')], opt_body = None\<rparr>
          (newClient \<lparr>baseUrl = ''https://h.example/WebLink'', repoName = ''R'', dbid = 0\<rparr>
            [\<lparr>status = 302, location = Some ''/Other.aspx'', setCookie = [''A=1''],
               json_body = Rejected\<rparr>,
             \<lparr>status = 200, location = None, setCookie = [], json_body = Rejected\<rparr>]))))
     = [(''https://h.example/a'', Some ''x=y''), (''https://h.example/Other.aspx'', Some ''x=y'')]"
  by (simp add: fetch.simps resolveUrl_def startsWith_def newClient_def noOptions_def
      isRedirect_def parseCookies_def buildRequest_def requestHeaders_def getCookieHeader_def
      storeCookie_def trim_def isWhiteSpace_def)

text \<open>
  C5, amended. On a response with a status among 301, 302, 303, 307, 308 and a non-empty
  \<open>Location\<close>, \<open>fetch\<close> merges the response's cookies into the jar and repeats itself, with
  the same options, on that location: the next request goes to the resolved location (a
  location \<open>/Other.aspx\<close> resolves to the origin of the base URL followed by
  \<open>/Other.aspx\<close>) and, unless the caller's headers set \<open>Cookie\<close> themselves, its Cookie
  header is the one built from the merged jar. When the base URL has an origin and the
  backend answers with redirects and then a response that is not one, \<open>fetch\<close> returns
  that response, having issued one request per response.
\<close>

theorem fetch_follows_redirect:
  "(status r \<in> {301, 302, 303, 307, 308} \<and> location r = Some loc \<and> loc \<noteq> []
      \<and> pending s = r # rest \<and> resolveUrl origin (config s) url = Inr fullUrl \<longrightarrow>
      (let s' = parseCookies r
                  (s\<lparr>pending := rest, sent := sent s @ [buildRequest fullUrl options s]\<rparr>)
       in fetch origin url options s = fetch origin loc options s'
          \<and> cookies s' = foldl storeCookie (cookies s) (setCookie r)
          \<and> (resolveUrl origin (config s) loc = Inr target \<longrightarrow>
               (\<exists>more. sent (snd (fetch origin url options s))
                    = sent s @ buildRequest fullUrl options s
                        # buildRequest target options s' # more)
               \<and> req_url (buildRequest target options s') = target
               \<and> (''Cookie'' \<notin> fst ` set (opt_headers options) \<longrightarrow>
                    map_of (req_headers (buildRequest target options s')) ''Cookie''
                      = Some (getCookieHeader s')))))
   \<and> (origin (baseUrl cfg) = Some orig \<longrightarrow>
        resolveUrl origin cfg ''/Other.aspx'' = Inr (orig @ ''/Other.aspx''))
   \<and> (origin (baseUrl (config s)) \<noteq> None \<and> pending s = rs @ final # remaining
        \<and> (\<forall>x \<in> set rs. isRedirect x) \<and> \<not> isRedirect final \<longrightarrow>
        (\<exists>s'. fetch origin url options s = (Inr final, s') \<and> pending s' = remaining
              \<and> length (sent s') = length (sent s) + length rs + 1))"
proof (intro conjI impI)
  assume h: "status r \<in> {301, 302, 303, 307, 308} \<and> location r = Some loc \<and> loc \<noteq> []
      \<and> pending s = r # rest \<and> resolveUrl origin (config s) url = Inr fullUrl"
  define s' where "s' = parseCookies r
      (s\<lparr>pending := rest, sent := sent s @ [buildRequest fullUrl options s]\<rparr>)"
  have red: "isRedirect r" using h by (simp add: isRedirect_iff)
  have F: "fetch origin url options s = fetch origin loc options s'"
    using fetch_redirect [of origin s url fullUrl r rest options] h red by (simp add: s'_def)
  have C: "cookies s' = foldl storeCookie (cookies s) (setCookie r)"
    by (simp add: s'_def parseCookies_def)
  have S: "sent s' = sent s @ [buildRequest fullUrl options s]" and K: "config s' = config s"
    by (simp_all add: s'_def parseCookies_frame)
  have T: "\<exists>more. sent (snd (fetch origin url options s))
                = sent s @ buildRequest fullUrl options s # buildRequest target options s' # more"
    if "resolveUrl origin (config s) loc = Inr target" for target
  proof -
    have "\<exists>more. sent (snd (fetch origin loc options s'))
            = sent s' @ buildRequest target options s' # more"
      using that by (intro fetch_sent_first) (simp add: K)
    then show ?thesis by (simp add: F S)
  qed
  have U: "req_url (buildRequest target options s') = target" for target
    by (simp add: buildRequest_def)
  have H: "map_of (req_headers (buildRequest target options s')) ''Cookie''
             = Some (getCookieHeader s')"
    if "''Cookie'' \<notin> fst ` set (opt_headers options)" for target
    using that by (simp add: buildRequest_def requestHeaders_Cookie)
  show "let s' = parseCookies r
                  (s\<lparr>pending := rest, sent := sent s @ [buildRequest fullUrl options s]\<rparr>)
       in fetch origin url options s = fetch origin loc options s'
          \<and> cookies s' = foldl storeCookie (cookies s) (setCookie r)
          \<and> (resolveUrl origin (config s) loc = Inr target \<longrightarrow>
               (\<exists>more. sent (snd (fetch origin url options s))
                    = sent s @ buildRequest fullUrl options s
                        # buildRequest target options s' # more)
               \<and> req_url (buildRequest target options s') = target
               \<and> (''Cookie'' \<notin> fst ` set (opt_headers options) \<longrightarrow>
                    map_of (req_headers (buildRequest target options s')) ''Cookie''
                      = Some (getCookieHeader s')))"
    unfolding Let_def s'_def [symmetric] using F C T U H by blast
next
  assume "origin (baseUrl cfg) = Some orig"
  then show "resolveUrl origin cfg ''/Other.aspx'' = Inr (orig @ ''/Other.aspx'')"
    by (rule resolveUrl_rooted)
next
  assume h: "origin (baseUrl (config s)) \<noteq> None \<and> pending s = rs @ final # remaining
        \<and> (\<forall>x \<in> set rs. isRedirect x) \<and> \<not> isRedirect final"
  then have "\<exists>s'. fetch origin url options s = (Inr final, s') \<and> pending s' = remaining
            \<and> length (sent s') = length (sent s) + length rs + 1 \<and> config s' = config s"
    by (intro fetch_chain) simp_all
  then show "\<exists>s'. fetch origin url options s = (Inr final, s') \<and> pending s' = remaining
              \<and> length (sent s') = length (sent s) + length rs + 1"
    by blast
qed

theorem fetch_follows_redirect_witness:
  "status \<lparr>status = 302, location = Some ''/Other.aspx'', setCookie = [''A=1''],
            json_body = Rejected\<rparr> \<in> {301, 302, 303, 307, 308}
   \<and> isRedirect \<lparr>status = 302, location = Some ''/Other.aspx'', setCookie = [''A=1''],
            json_body = Rejected\<rparr>
   \<and> \<not> isRedirect \<lparr>status = 200, location = None, setCookie = [], json_body = Rejected\<rparr>
   \<and> resolveUrl (\<lambda>u. Some ''https://h.example'')
        \<lparr>baseUrl = ''https://h.example/WebLink'', repoName = ''R'', dbid = 0\<rparr>
        ''https://h.example/a'' = Inr ''https://h.example/a''
   \<and> resolveUrl (\<lambda>u. Some ''https://h.example'')
        \<lparr>baseUrl = ''https://h.example/WebLink'', repoName = ''R'', dbid = 0\<rparr>
        ''/Other.aspx'' = Inr ''https://h.example/Other.aspx''
   \<and> (\<exists>s'. fetch (\<lambda>u. Some ''https://h.example'') ''https://h.example/a'' noOptions
          (newClient \<lparr>baseUrl = ''https://h.example/WebLink'', repoName = ''R'', dbid = 0\<rparr>
            [\<lparr>status = 302, location = Some ''/Other.aspx'', setCookie = [''A=1''],
               json_body = Rejected\<rparr>,
             \<lparr>status = 200, location = None, setCookie = [], json_body = Rejected\<rparr>])
        = (Inr \<lparr>status = 200, location = None, setCookie = [], json_body = Rejected\<rparr>, s')
        \<and> pending s' = [] \<and> length (sent s') = 2)"
proof -
  note T = fetch_follows_redirect [where
      r = "\<lparr>status = 302, location = Some ''/Other.aspx'', setCookie = [''A=1''],
            json_body = Rejected\<rparr>"
      and loc = "''/Other.aspx''"
      and s = "newClient \<lparr>baseUrl = ''https://h.example/WebLink'', repoName = ''R'', dbid = 0\<rparr>
            [\<lparr>status = 302, location = Some ''/Other.aspx'', setCookie = [''A=1''],
               json_body = Rejected\<rparr>,
             \<lparr>status = 200, location = None, setCookie = [], json_body = Rejected\<rparr>]"
      and rest = "[\<lparr>status = 200, location = None, setCookie = [], json_body = Rejected\<rparr>]"
      and origin = "\<lambda>u. Some ''https://h.example''"
      and url = "''https://h.example/a''" and fullUrl = "''https://h.example/a''"
      and options = noOptions and target = "''https://h.example/Other.aspx''"
      and cfg = "\<lparr>baseUrl = ''https://h.example/WebLink'', repoName = ''R'', dbid = 0\<rparr>"
      and orig = "''https://h.example''"
      and rs = "[\<lparr>status = 302, location = Some ''/Other.aspx'', setCookie = [''A=1''],
            json_body = Rejected\<rparr>]"
      and final = "\<lparr>status = 200, location = None, setCookie = [], json_body = Rejected\<rparr>"
      and remaining = "[]"]
  have hyps: "resolveUrl (\<lambda>u. Some ''https://h.example'')
        \<lparr>baseUrl = ''https://h.example/WebLink'', repoName = ''R'', dbid = 0\<rparr>
        ''https://h.example/a'' = Inr ''https://h.example/a''"
    "resolveUrl (\<lambda>u. Some ''https://h.example'')
        \<lparr>baseUrl = ''https://h.example/WebLink'', repoName = ''R'', dbid = 0\<rparr>
        ''/Other.aspx'' = Inr ''https://h.example/Other.aspx''"
    "isRedirect \<lparr>status = 302, location = Some ''/Other.aspx'', setCookie = [''A=1''],
            json_body = Rejected\<rparr>"
    "\<not> isRedirect \<lparr>status = 200, location = None, setCookie = [], json_body = Rejected\<rparr>"
    by (simp_all add: isRedirect_def resolveUrl_def startsWith_def)
  have st: "status \<lparr>status = 302, location = Some ''/Other.aspx'', setCookie = [''A=1''],
            json_body = Rejected\<rparr> \<in> {301, 302, 303, 307, 308}"
    by simp
  have "\<exists>s'. fetch (\<lambda>u. Some ''https://h.example'') ''https://h.example/a'' noOptions
          (newClient \<lparr>baseUrl = ''https://h.example/WebLink'', repoName = ''R'', dbid = 0\<rparr>
            [\<lparr>status = 302, location = Some ''/Other.aspx'', setCookie = [''A=1''],
               json_body = Rejected\<rparr>,
             \<lparr>status = 200, location = None, setCookie = [], json_body = Rejected\<rparr>])
        = (Inr \<lparr>status = 200, location = None, setCookie = [], json_body = Rejected\<rparr>, s')
        \<and> pending s' = [] \<and> length (sent s') = 2"
    using T [THEN conjunct2, THEN conjunct2] hyps(3,4)
    by (simp add: newClient_def numeral_2_eq_2)
  with st hyps show ?thesis by blast
qed

subsection \<open>The listing call\<close>

text \<open>
  C7, as stated, fails: a response with status 200 whose body is the JSON text \<open>null\<close> has a
  success status and a body that parses, and the call returns \<open>null\<close>, the parsed value.
\<close>

theorem null_body_returned:
  "ok \<lparr>status = 200, location = None, setCookie = [], json_body = Resolved None\<rparr>
   \<and> json_body \<lparr>status = 200, location = None, setCookie = [], json_body = Resolved None\<rparr>
       \<noteq> Rejected
   \<and> fst (getFolderListing arcadiaOrigin 874714 0 500
        (newClient arcadiaConfig
           [\<lparr>status = 200, location = None, setCookie = [], json_body = Resolved None\<rparr>]))
     = Inr None"
  by (simp add: ok_def getFolderListing_def fetch.simps resolveUrl_def startsWith_def
      newClient_def arcadiaConfig_def isRedirect_def parsedBody_def Let_def)

text \<open>
  C7, amended. For the final response that \<open>fetch\<close> returns, \<open>getFolderListing\<close> returns
  \<open>null\<close> when the status is outside 200-299 or the body fails to parse as JSON, and
  otherwise the parsed body as it is: the envelope, or \<open>null\<close> when the body is the JSON
  text \<open>null\<close>. It raises nothing of its own: it raises exactly what \<open>fetch\<close> raised, and
  when the base URL has an origin and the backend delivers redirects followed by a final
  response, it returns.
\<close>

theorem getFolderListing_result:
  "(fetch origin (baseUrl (config s) @ ''/FolderListingService.aspx/GetFolderListing2'')
       (listingOptions \<lparr>b_repoName = repoName (config s), b_folderId = folderId,
          b_getNewListing = True, b_start = start, b_end = endIdx,
          b_sortColumn = ''name'', b_sortAscending = True\<rparr>) s = (Inr r, s') \<longrightarrow>
      getFolderListing origin folderId start endIdx s
        = (Inr (if ok r then (case json_body r of Rejected \<Rightarrow> None | Resolved v \<Rightarrow> v)
                else None), s')
      \<and> (fst (getFolderListing origin folderId start endIdx s) = Inr None \<longleftrightarrow>
           \<not> ok r \<or> json_body r = Rejected \<or> json_body r = Resolved None))
   \<and> (fst (getFolderListing origin folderId start endIdx s) = Inl e \<longleftrightarrow>
        fst (fetch origin (baseUrl (config s) @ ''/FolderListingService.aspx/GetFolderListing2'')
          (listingOptions \<lparr>b_repoName = repoName (config s), b_folderId = folderId,
             b_getNewListing = True, b_start = start, b_end = endIdx,
             b_sortColumn = ''name'', b_sortAscending = True\<rparr>) s) = Inl e)
   \<and> (ok r \<longleftrightarrow> 200 \<le> status r \<and> status r \<le> 299)
   \<and> (origin (baseUrl (config s)) \<noteq> None \<and> pending s = rs @ final # remaining
        \<and> (\<forall>x \<in> set rs. isRedirect x) \<and> \<not> isRedirect final \<longrightarrow>
        (\<exists>t. getFolderListing origin folderId start endIdx s
               = (Inr (if ok final
                       then (case json_body final of Rejected \<Rightarrow> None | Resolved v \<Rightarrow> v)
                       else None), t)
             \<and> pending t = remaining))"
proof (intro conjI impI)
  let ?url = "baseUrl (config s) @ ''/FolderListingService.aspx/GetFolderListing2''"
  let ?opts = "listingOptions \<lparr>b_repoName = repoName (config s), b_folderId = folderId,
          b_getNewListing = True, b_start = start, b_end = endIdx,
          b_sortColumn = ''name'', b_sortAscending = True\<rparr>"
  {
    assume F: "fetch origin ?url ?opts s = (Inr r, s')"
    then show G: "getFolderListing origin folderId start endIdx s
        = (Inr (if ok r then (case json_body r of Rejected \<Rightarrow> None | Resolved v \<Rightarrow> v)
                else None), s')"
      by (simp add: getFolderListing_def Let_def parsedBody_def)
    show "fst (getFolderListing origin folderId start endIdx s) = Inr None \<longleftrightarrow>
           \<not> ok r \<or> json_body r = Rejected \<or> json_body r = Resolved None"
      unfolding G by (cases "json_body r") auto
  }
  show "fst (getFolderListing origin folderId start endIdx s) = Inl e \<longleftrightarrow>
        fst (fetch origin ?url ?opts s) = Inl e"
    by (auto simp: getFolderListing_def Let_def split: prod.splits sum.splits)
  show "ok r \<longleftrightarrow> 200 \<le> status r \<and> status r \<le> 299"
    by (simp add: ok_def)
  {
    assume h: "origin (baseUrl (config s)) \<noteq> None \<and> pending s = rs @ final # remaining
        \<and> (\<forall>x \<in> set rs. isRedirect x) \<and> \<not> isRedirect final"
    then have "\<exists>t. fetch origin ?url ?opts s = (Inr final, t) \<and> pending t = remaining
            \<and> length (sent t) = length (sent s) + length rs + 1 \<and> config t = config s"
      by (intro fetch_chain) simp_all
    then obtain t where "fetch origin ?url ?opts s = (Inr final, t)" "pending t = remaining"
      by blast
    then have "getFolderListing origin folderId start endIdx s
               = (Inr (if ok final
                       then (case json_body final of Rejected \<Rightarrow> None | Resolved v \<Rightarrow> v)
                       else None), t)
             \<and> pending t = remaining"
      by (simp add: getFolderListing_def Let_def parsedBody_def)
    then show "\<exists>t. getFolderListing origin folderId start endIdx s
               = (Inr (if ok final
                       then (case json_body final of Rejected \<Rightarrow> None | Resolved v \<Rightarrow> v)
                       else None), t)
             \<and> pending t = remaining"
      by blast
  }
qed

theorem getFolderListing_result_witness:
  "arcadiaOrigin (baseUrl arcadiaConfig) \<noteq> None
   \<and> \<not> isRedirect \<lparr>status = 500, location = None, setCookie = [], json_body = Rejected\<rparr>
   \<and> \<not> ok \<lparr>status = 500, location = None, setCookie = [], json_body = Rejected\<rparr>
   \<and> (\<exists>t. fetch arcadiaOrigin
          (baseUrl arcadiaConfig @ ''/FolderListingService.aspx/GetFolderListing2'')
          (listingOptions \<lparr>b_repoName = repoName arcadiaConfig, b_folderId = 874714,
             b_getNewListing = True, b_start = 0, b_end = 500,
             b_sortColumn = ''name'', b_sortAscending = True\<rparr>)
          (newClient arcadiaConfig
             [\<lparr>status = 500, location = None, setCookie = [], json_body = Rejected\<rparr>])
        = (Inr \<lparr>status = 500, location = None, setCookie = [], json_body = Rejected\<rparr>, t)
      \<and> getFolderListing arcadiaOrigin 874714 0 500
          (newClient arcadiaConfig
             [\<lparr>status = 500, location = None, setCookie = [], json_body = Rejected\<rparr>])
        = (Inr None, t)
      \<and> pending t = [])"
proof -
  let ?r = "\<lparr>status = 500, location = None, setCookie = [], json_body = Rejected\<rparr>"
  let ?s = "newClient arcadiaConfig [?r]"
  let ?url = "baseUrl arcadiaConfig @ ''/FolderListingService.aspx/GetFolderListing2''"
  let ?opts = "listingOptions \<lparr>b_repoName = repoName arcadiaConfig, b_folderId = 874714,
             b_getNewListing = True, b_start = 0, b_end = 500,
             b_sortColumn = ''name'', b_sortAscending = True\<rparr>"
  note T = getFolderListing_result [where origin = arcadiaOrigin and s = ?s
      and folderId = 874714 and start = 0 and endIdx = 500 and r = ?r and rs = "[]"
      and final = ?r and remaining = "[]" and e = NetworkError]
  have h: "arcadiaOrigin (baseUrl arcadiaConfig) \<noteq> None" "\<not> isRedirect ?r" "\<not> ok ?r"
    "config ?s = arcadiaConfig" "pending ?s = [] @ ?r # []"
    by (simp_all add: arcadiaOrigin_def arcadiaConfig_def isRedirect_def ok_def newClient_def)
  have "\<exists>t. getFolderListing arcadiaOrigin 874714 0 500 ?s = (Inr None, t) \<and> pending t = []"
    using T [THEN conjunct2, THEN conjunct2, THEN conjunct2] h by simp
  then obtain t where G: "getFolderListing arcadiaOrigin 874714 0 500 ?s = (Inr None, t)"
    and P: "pending t = []" by blast
  have "\<exists>x. fetch arcadiaOrigin ?url ?opts ?s = (Inr ?r, x)"
    using fetch_chain [of arcadiaOrigin ?s "[]" ?r "[]" ?url ?opts] h by auto
  then obtain x where F: "fetch arcadiaOrigin ?url ?opts ?s = (Inr ?r, x)" by blast
  have "getFolderListing arcadiaOrigin 874714 0 500 ?s
      = (Inr (if ok ?r then (case json_body ?r of Rejected \<Rightarrow> None | Resolved v \<Rightarrow> v)
              else None), x)"
    using T [THEN conjunct1] F h(4) by simp
  with G have "x = t" by simp
  with F G P h(1-3) show ?thesis by blast
qed

subsection \<open>One iteration of the pagination loop\<close>

lemma loop_raises:
  "getFolderListing origin folderId start (start + pageSize) s = (Inl e, s') \<Longrightarrow>
   getAllEntries_loop origin folderId start totalCount firstFetch fname ents s = (Inl e, s')"
  by (subst getAllEntries_loop.simps) simp

lemma loop_no_data:
  "getFolderListing origin folderId start (start + pageSize) s = (Inr resp, s') \<Longrightarrow>
   envelopeData resp = None \<Longrightarrow>
   getAllEntries_loop origin folderId start totalCount firstFetch fname ents s
     = (Inr \<lparr>folderName = fname, entries = ents\<rparr>, s')"
  by (subst getAllEntries_loop.simps) simp

lemma loop_page:
  "getFolderListing origin folderId start (start + pageSize) s = (Inr resp, s') \<Longrightarrow>
   envelopeData resp = Some dat \<Longrightarrow>
   getAllEntries_loop origin folderId start totalCount firstFetch fname ents s
     = (if start + pageSize < (if firstFetch then totalOr (totalEntries dat) else totalCount)
        then getAllEntries_loop origin folderId (start + pageSize)
               (if firstFetch then totalOr (totalEntries dat) else totalCount) False
               (if firstFetch then nameOr (p_name dat) else fname)
               (ents @ decodePage dat) s'
        else (Inr \<lparr>folderName = (if firstFetch then nameOr (p_name dat) else fname),
                   entries = ents @ decodePage dat\<rparr>, s'))"
  by (subst getAllEntries_loop.simps) (simp add: Let_def)

lemma nameOr_Some: "nameOr (Some n) = n"
  by (simp add: nameOr_def)

lemma totalOr_simps: "totalOr None = 0" "totalOr (Some n) = n"
  by (simp_all add: totalOr_def)

lemma length_decodePage:
  "length (decodePage dat) = (case results dat of None \<Rightarrow> 0 | Some rs \<Rightarrow> length rs)"
  by (simp add: decodePage_def Let_def split: option.splits)

text \<open>A listing call answered directly, by a response that is not a redirect.\<close>

lemma startsWith_append: "startsWith s p \<Longrightarrow> startsWith (s @ t) p"
  unfolding startsWith_def by (metis append_eq_conv_conj append.assoc append_take_drop_id)

lemma getFolderListing_direct:
  assumes "startsWith (baseUrl (config s)) ''http''"
    and "pending s = r # rest" and "\<not> isRedirect r"
  shows "getFolderListing origin folderId start endIdx s
     = (Inr (if ok r then parsedBody r else None),
        parseCookies r (s\<lparr>pending := rest,
          sent := sent s @ [buildRequest
            (baseUrl (config s) @ ''/FolderListingService.aspx/GetFolderListing2'')
            (listingOptions \<lparr>b_repoName = repoName (config s), b_folderId = folderId,
               b_getNewListing = True, b_start = start, b_end = endIdx,
               b_sortColumn = ''name'', b_sortAscending = True\<rparr>) s]\<rparr>))"
proof -
  let ?url = "baseUrl (config s) @ ''/FolderListingService.aspx/GetFolderListing2''"
  have "resolveUrl origin (config s) ?url = Inr ?url"
    using assms(1) by (intro resolveUrl_absolute startsWith_append)
  then have "fetch origin ?url
      (listingOptions \<lparr>b_repoName = repoName (config s), b_folderId = folderId,
               b_getNewListing = True, b_start = start, b_end = endIdx,
               b_sortColumn = ''name'', b_sortAscending = True\<rparr>) s
     = (Inr r, parseCookies r (s\<lparr>pending := rest,
          sent := sent s @ [buildRequest ?url
            (listingOptions \<lparr>b_repoName = repoName (config s), b_folderId = folderId,
               b_getNewListing = True, b_start = start, b_end = endIdx,
               b_sortColumn = ''name'', b_sortAscending = True\<rparr>) s]\<rparr>))"
    using assms(2,3) by (rule fetch_direct)
  then show ?thesis by (simp add: getFolderListing_def Let_def)
qed

subsection \<open>Pagination\<close>

lemma getFolderListing_page:
  assumes "startsWith (baseUrl (config s)) ''http''"
    and "pending s = r # rest" and "\<not> isRedirect r"
  shows "\<exists>s'. getFolderListing origin folderId start endIdx s
               = (Inr (if ok r then parsedBody r else None), s')
           \<and> pending s' = rest \<and> config s' = config s
           \<and> (\<exists>q. sent s' = sent s @ [q] \<and> windowOf q = Some (start, endIdx))"
  unfolding getFolderListing_direct [OF assms]
  by (simp add: parseCookies_frame windowOf_def buildRequest_def listingOptions_def)

lemma envelopeData_pagePayload:
  "envelopeData (if ok r then parsedBody r else None) = pagePayload r"
  by (simp add: pagePayload_def envelopeData_def)

lemma getAllEntries_one:
  assumes "getFolderListing origin folderId 0 500 s = (Inr resp, s1)"
    and "envelopeData resp = Some dat"
    and "totalOr (totalEntries dat) \<le> 500"
  shows "getAllEntries origin folderId s
     = (Inr \<lparr>folderName = nameOr (p_name dat), entries = decodePage dat\<rparr>, s1)"
proof -
  have "getFolderListing origin folderId 0 (0 + pageSize) s = (Inr resp, s1)"
    using assms(1) by (simp add: pageSize_def)
  from loop_page [OF this assms(2)] assms(3) show ?thesis
    by (simp add: getAllEntries_def pageSize_def)
qed

lemma getAllEntries_three:
  assumes "getFolderListing origin folderId 0 500 s = (Inr respa, sa)"
    and "envelopeData respa = Some da" and "totalEntries da = Some 1200"
    and "getFolderListing origin folderId 500 1000 sa = (Inr respb, sb)"
    and "envelopeData respb = Some db"
    and "getFolderListing origin folderId 1000 1500 sb = (Inr respc, sc)"
    and "envelopeData respc = Some dc"
  shows "getAllEntries origin folderId s
     = (Inr \<lparr>folderName = nameOr (p_name da),
             entries = decodePage da @ decodePage db @ decodePage dc\<rparr>, sc)"
proof -
  have A: "getFolderListing origin folderId 0 (0 + pageSize) s = (Inr respa, sa)"
    and B: "getFolderListing origin folderId 500 (500 + pageSize) sa = (Inr respb, sb)"
    and C: "getFolderListing origin folderId 1000 (1000 + pageSize) sb = (Inr respc, sc)"
    using assms(1,4,6) by (simp_all add: pageSize_def)
  have "getAllEntries origin folderId s
      = getAllEntries_loop origin folderId 500 1200 False (nameOr (p_name da)) (decodePage da) sa"
    using loop_page [OF A assms(2), of 0 True "[]" "[]"] assms(3)
    by (simp add: getAllEntries_def pageSize_def totalOr_simps)
  also have "\<dots> = getAllEntries_loop origin folderId 1000 1200 False (nameOr (p_name da))
                      (decodePage da @ decodePage db) sb"
    using loop_page [OF B assms(5), of 1200 False] by (simp add: pageSize_def)
  also have "\<dots> = (Inr \<lparr>folderName = nameOr (p_name da),
             entries = decodePage da @ decodePage db @ decodePage dc\<rparr>, sc)"
    using loop_page [OF C assms(7), of 1200 False] by (simp add: pageSize_def)
  finally show ?thesis .
qed

lemma fixturePage_facts:
  "\<not> isRedirect (fixturePage n t rs cs)"
  "pagePayload (fixturePage n t rs cs)
     = Some \<lparr>p_name = Some n, totalEntries = t, results = Some rs, colTypes = Some cs\<rparr>"
  by (simp_all add: fixturePage_def isRedirect_def pagePayload_def ok_def envelopeData_def)

lemma arcadia_absolute: "startsWith (baseUrl arcadiaConfig) ''http''"
  by (simp add: arcadiaConfig_def startsWith_def)

text \<open>
  C8. When the first page reports a total of 0, or none, \<open>getAllEntries\<close> returns after that
  page, in the state the first listing call left: the folder name is the one of that page
  and the entries are its rows, none when \<open>results\<close> is empty. On a backend that answers
  the listing request directly, exactly one request is issued, for the window 0-500.
\<close>

theorem getAllEntries_zero_total:
  "(getFolderListing origin folderId 0 500 s = (Inr resp, s1) \<and> envelopeData resp = Some dat
      \<and> (totalEntries dat = None \<or> totalEntries dat = Some 0) \<longrightarrow>
      getAllEntries origin folderId s
        = (Inr \<lparr>folderName = nameOr (p_name dat), entries = decodePage dat\<rparr>, s1)
      \<and> (p_name dat = Some n \<longrightarrow> nameOr (p_name dat) = n)
      \<and> (results dat = None \<or> results dat = Some [] \<longrightarrow> decodePage dat = []))
   \<and> (startsWith (baseUrl (config s)) ''http'' \<and> pending s = r # rest \<and> \<not> isRedirect r
      \<and> pagePayload r = Some dat \<and> (totalEntries dat = None \<or> totalEntries dat = Some 0) \<longrightarrow>
      (\<exists>s' q. getAllEntries origin folderId s
                 = (Inr \<lparr>folderName = nameOr (p_name dat), entries = decodePage dat\<rparr>, s')
             \<and> pending s' = rest \<and> sent s' = sent s @ [q] \<and> windowOf q = Some (0, 500)))"
proof (intro conjI impI)
  assume h: "getFolderListing origin folderId 0 500 s = (Inr resp, s1)
      \<and> envelopeData resp = Some dat \<and> (totalEntries dat = None \<or> totalEntries dat = Some 0)"
  then have A: "getFolderListing origin folderId 0 500 s = (Inr resp, s1)"
    and B: "envelopeData resp = Some dat"
    and C: "totalOr (totalEntries dat) \<le> 500"
    by (auto simp: totalOr_simps)
  show "getAllEntries origin folderId s
        = (Inr \<lparr>folderName = nameOr (p_name dat), entries = decodePage dat\<rparr>, s1)"
    using A B C by (rule getAllEntries_one)
  show "nameOr (p_name dat) = n" if "p_name dat = Some n"
    using that by (simp add: nameOr_Some)
  show "decodePage dat = []" if "results dat = None \<or> results dat = Some []"
    using that by (auto simp: decodePage_def Let_def)
next
  assume h: "startsWith (baseUrl (config s)) ''http'' \<and> pending s = r # rest \<and> \<not> isRedirect r
      \<and> pagePayload r = Some dat \<and> (totalEntries dat = None \<or> totalEntries dat = Some 0)"
  then obtain s' q where L: "getFolderListing origin folderId 0 500 s
               = (Inr (if ok r then parsedBody r else None), s')"
    and P: "pending s' = rest" "sent s' = sent s @ [q]" "windowOf q = Some (0, 500)"
    using getFolderListing_page [of s r rest origin folderId 0 500] by blast
  have E: "envelopeData (if ok r then parsedBody r else None) = Some dat"
    using h by (simp add: envelopeData_pagePayload)
  have "totalOr (totalEntries dat) \<le> 500" using h by (auto simp: totalOr_simps)
  with L E have "getAllEntries origin folderId s
        = (Inr \<lparr>folderName = nameOr (p_name dat), entries = decodePage dat\<rparr>, s')"
    by (rule getAllEntries_one)
  with P show "\<exists>s' q. getAllEntries origin folderId s
                 = (Inr \<lparr>folderName = nameOr (p_name dat), entries = decodePage dat\<rparr>, s')
             \<and> pending s' = rest \<and> sent s' = sent s @ [q] \<and> windowOf q = Some (0, 500)"
    by blast
qed

theorem getAllEntries_zero_total_witness:
  "startsWith (baseUrl arcadiaConfig) ''http''
   \<and> \<not> isRedirect (fixturePage ''Empty'' (Some 0) [] [])
   \<and> pagePayload (fixturePage ''Empty'' (Some 0) [] [])
        = Some \<lparr>p_name = Some ''Empty'', totalEntries = Some 0, results = Some [],
                colTypes = Some []\<rparr>
   \<and> (\<exists>s' q. getAllEntries arcadiaOrigin 874714
          (newClient arcadiaConfig
             [fixturePage ''Empty'' (Some 0) [] [], fixturePage ''Next'' None [fixtureRow 1] []])
        = (Inr \<lparr>folderName = ''Empty'', entries = []\<rparr>, s')
        \<and> pending s' = [fixturePage ''Next'' None [fixtureRow 1] []]
        \<and> sent s' = [q] \<and> windowOf q = Some (0, 500))"
proof -
  let ?dat = "\<lparr>p_name = Some ''Empty'', totalEntries = Some 0, results = Some [],
                colTypes = Some []\<rparr>"
  let ?s = "newClient arcadiaConfig
             [fixturePage ''Empty'' (Some 0) [] [], fixturePage ''Next'' None [fixtureRow 1] []]"
  have "\<exists>s' q. getAllEntries arcadiaOrigin 874714 ?s
                 = (Inr \<lparr>folderName = nameOr (p_name ?dat), entries = decodePage ?dat\<rparr>, s')
             \<and> pending s' = [fixturePage ''Next'' None [fixtureRow 1] []]
             \<and> sent s' = sent ?s @ [q] \<and> windowOf q = Some (0, 500)"
    using getAllEntries_zero_total [where s = ?s and r = "fixturePage ''Empty'' (Some 0) [] []"
        and rest = "[fixturePage ''Next'' None [fixtureRow 1] []]" and dat = ?dat
        and origin = arcadiaOrigin and folderId = 874714, THEN conjunct2]
      arcadia_absolute fixturePage_facts
    by (simp add: newClient_def)
  then show ?thesis
    using arcadia_absolute fixturePage_facts
    by (simp add: newClient_def nameOr_def decodePage_def)
qed

lemma length_decodePage_rowCount: "length (decodePage dat) = rowCount dat"
  by (simp add: length_decodePage rowCount_def)

text \<open>
  C1. When the first page reports \<open>totalEntries = 1200\<close> and each of the three listing calls
  for the windows 0-500, 500-1000 and 1000-1500 is answered with a page, \<open>getAllEntries\<close>
  makes exactly these three calls, in this order, and returns the first page's folder name
  with the rows of the three pages in request order: 1200 entries for pages of 500, 500 and
  200 rows. On a backend that answers each listing request directly, exactly three requests
  are issued, for these windows.
\<close>

theorem getAllEntries_three_pages:
  "(getFolderListing origin folderId 0 500 s = (Inr respa, sa)
      \<and> envelopeData respa = Some da \<and> totalEntries da = Some 1200
      \<and> getFolderListing origin folderId 500 1000 sa = (Inr respb, sb)
      \<and> envelopeData respb = Some db
      \<and> getFolderListing origin folderId 1000 1500 sb = (Inr respc, sc)
      \<and> envelopeData respc = Some dc \<longrightarrow>
      getAllEntries origin folderId s
        = (Inr \<lparr>folderName = nameOr (p_name da),
                entries = decodePage da @ decodePage db @ decodePage dc\<rparr>, sc))
   \<and> (startsWith (baseUrl (config s)) ''http'' \<and> pending s = ra # rb # rc # rest
      \<and> \<not> isRedirect ra \<and> \<not> isRedirect rb \<and> \<not> isRedirect rc
      \<and> pagePayload ra = Some da \<and> pagePayload rb = Some db \<and> pagePayload rc = Some dc
      \<and> totalEntries da = Some 1200 \<longrightarrow>
      (\<exists>s'. getAllEntries origin folderId s
               = (Inr \<lparr>folderName = nameOr (p_name da),
                       entries = decodePage da @ decodePage db @ decodePage dc\<rparr>, s')
           \<and> pending s' = rest
           \<and> (\<exists>qa qb qc. sent s' = sent s @ [qa, qb, qc] \<and> windowOf qa = Some (0, 500)
                 \<and> windowOf qb = Some (500, 1000) \<and> windowOf qc = Some (1000, 1500))))
   \<and> length (decodePage da @ decodePage db @ decodePage dc)
        = rowCount da + rowCount db + rowCount dc
   \<and> (rowCount da = 500 \<and> rowCount db = 500 \<and> rowCount dc = 200 \<longrightarrow>
        length (decodePage da @ decodePage db @ decodePage dc) = 1200)"
proof (intro conjI impI)
  assume "getFolderListing origin folderId 0 500 s = (Inr respa, sa)
      \<and> envelopeData respa = Some da \<and> totalEntries da = Some 1200
      \<and> getFolderListing origin folderId 500 1000 sa = (Inr respb, sb)
      \<and> envelopeData respb = Some db
      \<and> getFolderListing origin folderId 1000 1500 sb = (Inr respc, sc)
      \<and> envelopeData respc = Some dc"
  then show "getAllEntries origin folderId s
        = (Inr \<lparr>folderName = nameOr (p_name da),
                entries = decodePage da @ decodePage db @ decodePage dc\<rparr>, sc)"
    using getAllEntries_three [of origin folderId s respa sa da respb sb db respc sc dc] by blast
next
  assume h: "startsWith (baseUrl (config s)) ''http'' \<and> pending s = ra # rb # rc # rest
      \<and> \<not> isRedirect ra \<and> \<not> isRedirect rb \<and> \<not> isRedirect rc
      \<and> pagePayload ra = Some da \<and> pagePayload rb = Some db \<and> pagePayload rc = Some dc
      \<and> totalEntries da = Some 1200"
  obtain sa qa where La: "getFolderListing origin folderId 0 500 s
               = (Inr (if ok ra then parsedBody ra else None), sa)"
    and Pa: "pending sa = rb # rc # rest" "config sa = config s"
      "sent sa = sent s @ [qa]" "windowOf qa = Some (0, 500)"
    using getFolderListing_page [of s ra "rb # rc # rest" origin folderId 0 500] h by blast
  obtain sb qb where Lb: "getFolderListing origin folderId 500 1000 sa
               = (Inr (if ok rb then parsedBody rb else None), sb)"
    and Pb: "pending sb = rc # rest" "config sb = config sa"
      "sent sb = sent sa @ [qb]" "windowOf qb = Some (500, 1000)"
    using getFolderListing_page [of sa rb "rc # rest" origin folderId 500 1000] h Pa by auto
  obtain sc qc where Lc: "getFolderListing origin folderId 1000 1500 sb
               = (Inr (if ok rc then parsedBody rc else None), sc)"
    and Pc: "pending sc = rest" "sent sc = sent sb @ [qc]" "windowOf qc = Some (1000, 1500)"
    using getFolderListing_page [of sb rc rest origin folderId 1000 1500] h Pa Pb by auto
  have "getAllEntries origin folderId s
               = (Inr \<lparr>folderName = nameOr (p_name da),
                       entries = decodePage da @ decodePage db @ decodePage dc\<rparr>, sc)"
    using La _ _ Lb _ Lc
    by (rule getAllEntries_three) (use h in \<open>simp_all add: envelopeData_pagePayload\<close>)
  moreover have "sent sc = sent s @ [qa, qb, qc]" using Pa Pb Pc by simp
  ultimately show "\<exists>s'. getAllEntries origin folderId s
               = (Inr \<lparr>folderName = nameOr (p_name da),
                       entries = decodePage da @ decodePage db @ decodePage dc\<rparr>, s')
           \<and> pending s' = rest
           \<and> (\<exists>qa qb qc. sent s' = sent s @ [qa, qb, qc] \<and> windowOf qa = Some (0, 500)
                 \<and> windowOf qb = Some (500, 1000) \<and> windowOf qc = Some (1000, 1500))"
    using Pa Pb Pc by blast
next
  show "length (decodePage da @ decodePage db @ decodePage dc)
        = rowCount da + rowCount db + rowCount dc"
    by (simp add: length_decodePage_rowCount)
  then show "length (decodePage da @ decodePage db @ decodePage dc) = 1200"
    if "rowCount da = 500 \<and> rowCount db = 500 \<and> rowCount dc = 200"
    using that by simp
qed

theorem getAllEntries_three_pages_witness:
  "startsWith (baseUrl arcadiaConfig) ''http''
   \<and> \<not> isRedirect (fixturePage ''Agendas'' (Some 1200) (replicate 500 (fixtureRow 1)) [])
   \<and> pagePayload (fixturePage ''Agendas'' (Some 1200) (replicate 500 (fixtureRow 1)) [])
        = Some \<lparr>p_name = Some ''Agendas'', totalEntries = Some 1200,
                results = Some (replicate 500 (fixtureRow 1)), colTypes = Some []\<rparr>
   \<and> rowCount \<lparr>p_name = Some ''Agendas'', totalEntries = Some 1200,
                results = Some (replicate 500 (fixtureRow 1)), colTypes = Some []\<rparr> = 500
   \<and> (\<exists>fc s' qa qb qc. getAllEntries arcadiaOrigin 874714
          (newClient arcadiaConfig
             [fixturePage ''Agendas'' (Some 1200) (replicate 500 (fixtureRow 1)) [],
              fixturePage ''Agendas'' (Some 1200) (replicate 500 (fixtureRow 2)) [],
              fixturePage ''Agendas'' (Some 1200) (replicate 200 (fixtureRow 3)) [],
              fixturePage ''Agendas'' (Some 1200) [] []])
        = (Inr fc, s')
        \<and> folderName fc = ''Agendas'' \<and> length (entries fc) = 1200
        \<and> pending s' = [fixturePage ''Agendas'' (Some 1200) [] []]
        \<and> sent s' = [qa, qb, qc] \<and> windowOf qa = Some (0, 500)
        \<and> windowOf qb = Some (500, 1000) \<and> windowOf qc = Some (1000, 1500))"
proof -
  let ?da = "\<lparr>p_name = Some ''Agendas'', totalEntries = Some 1200,
                results = Some (replicate 500 (fixtureRow 1)), colTypes = Some []\<rparr>"
  let ?db = "\<lparr>p_name = Some ''Agendas'', totalEntries = Some 1200,
                results = Some (replicate 500 (fixtureRow 2)), colTypes = Some []\<rparr>"
  let ?dc = "\<lparr>p_name = Some ''Agendas'', totalEntries = Some 1200,
                results = Some (replicate 200 (fixtureRow 3)), colTypes = Some []\<rparr>"
  let ?ra = "fixturePage ''Agendas'' (Some 1200) (replicate 500 (fixtureRow 1)) []"
  let ?rb = "fixturePage ''Agendas'' (Some 1200) (replicate 500 (fixtureRow 2)) []"
  let ?rc = "fixturePage ''Agendas'' (Some 1200) (replicate 200 (fixtureRow 3)) []"
  let ?rd = "fixturePage ''Agendas'' (Some 1200) [] []"
  let ?s = "newClient arcadiaConfig [?ra, ?rb, ?rc, ?rd]"
  note T = getAllEntries_three_pages [where s = ?s and ra = ?ra and rb = ?rb and rc = ?rc
      and rest = "[?rd]" and da = ?da and db = ?db and dc = ?dc
      and origin = arcadiaOrigin and folderId = 874714]
  have rows: "rowCount ?da = 500" "rowCount ?db = 500" "rowCount ?dc = 200"
    by (simp_all add: rowCount_def)
  have len: "length (decodePage ?da @ decodePage ?db @ decodePage ?dc) = 1200"
    using T [THEN conjunct2, THEN conjunct2, THEN conjunct2] rows by blast
  have "\<exists>s'. getAllEntries arcadiaOrigin 874714 ?s
               = (Inr \<lparr>folderName = nameOr (p_name ?da),
                       entries = decodePage ?da @ decodePage ?db @ decodePage ?dc\<rparr>, s')
           \<and> pending s' = [?rd]
           \<and> (\<exists>qa qb qc. sent s' = sent ?s @ [qa, qb, qc] \<and> windowOf qa = Some (0, 500)
                 \<and> windowOf qb = Some (500, 1000) \<and> windowOf qc = Some (1000, 1500))"
    using T [THEN conjunct2, THEN conjunct1] arcadia_absolute fixturePage_facts
    by (simp add: newClient_def)
  then obtain s' qa qb qc where
    "getAllEntries arcadiaOrigin 874714 ?s
               = (Inr \<lparr>folderName = nameOr (p_name ?da),
                       entries = decodePage ?da @ decodePage ?db @ decodePage ?dc\<rparr>, s')"
    "pending s' = [?rd]" "sent s' = sent ?s @ [qa, qb, qc]" "windowOf qa = Some (0, 500)"
    "windowOf qb = Some (500, 1000)" "windowOf qc = Some (1000, 1500)"
    by blast
  moreover have "sent ?s = []" by (simp add: newClient_def)
  moreover have "nameOr (p_name ?da) = ''Agendas''" by (simp add: nameOr_def)
  ultimately have "\<exists>fc s' qa qb qc. getAllEntries arcadiaOrigin 874714 ?s = (Inr fc, s')
        \<and> folderName fc = ''Agendas'' \<and> length (entries fc) = 1200
        \<and> pending s' = [?rd]
        \<and> sent s' = [qa, qb, qc] \<and> windowOf qa = Some (0, 500)
        \<and> windowOf qb = Some (500, 1000) \<and> windowOf qc = Some (1000, 1500)"
    using len by force
  with arcadia_absolute fixturePage_facts rows(1) show ?thesis by blast
qed

subsection \<open>Columns\<close>

lemma findIndex_conv:
  "findIndex P xs
     = (if \<exists>x \<in> set xs. P x then int (length (takeWhile (\<lambda>x. \<not> P x) xs)) else - 1)"
  by (induction xs) (auto simp: Let_def)

lemma cellAt_findIndex:
  "cellAt (findIndex (\<lambda>c. col_name c = name) cols) result = columnValue name cols result"
  by (auto simp: findIndex_conv cellAt_def columnValue_def Let_def split: option.splits)

lemma decodePage_columns:
  "decodePage dat
     = map (\<lambda>result.
         \<lparr>entry_id = entryId result, entry_name = row_name result,
          entry_type = getEntryType (row_type result),
          pageCount = columnValue ''PageCount'' (pageColumns dat) result,
          template = columnValue ''TemplateName'' (pageColumns dat) result,
          creationDate = columnValue ''CreationDate'' (pageColumns dat) result,
          modificationDate = columnValue ''LastModified'' (pageColumns dat) result\<rparr>)
       (pageRows dat)"
  by (simp add: decodePage_def Let_def toEntry_def cellAt_findIndex pageRows_def pageColumns_def)

lemma decodedPages_append: "decodedPages (xs @ ys) = decodedPages xs @ decodedPages ys"
  by (induction xs) (auto split: option.splits)

lemma decodedPages_redirects: "\<forall>x \<in> set cs. isRedirect x \<Longrightarrow> decodedPages cs = []"
  by (induction cs) auto

text \<open>What \<open>fetch\<close> consumes: redirects, then the response it returns.\<close>

lemma fetch_consumes:
  "fetch origin url options s = (Inr r, s') \<Longrightarrow>
   \<exists>cs. pending s = cs @ r # pending s' \<and> (\<forall>x \<in> set cs. isRedirect x) \<and> \<not> isRedirect r"
proof (induction origin url options s rule: fetch.induct)
  case (1 origin url options s)
  show ?case
  proof (cases "resolveUrl origin (config s) url")
    case (Inl e)
    with "1.prems" show ?thesis by (simp add: fetch_error)
  next
    case (Inr fullUrl)
    show ?thesis
    proof (cases "pending s")
      case Nil
      with Inr "1.prems" show ?thesis by (simp add: fetch_exhausted)
    next
      case (Cons x rest)
      define req where "req = buildRequest fullUrl options s"
      define s1 where "s1 = parseCookies x (s\<lparr>pending := rest, sent := sent s @ [req]\<rparr>)"
      have P1: "pending s1 = rest" by (simp add: s1_def parseCookies_frame)
      show ?thesis
      proof (cases "isRedirect x")
        case True
        have "fetch origin url options s = fetch origin (the (location x)) options s1"
          unfolding s1_def req_def using Inr Cons True by (rule fetch_redirect)
        with "1.prems" have "fetch origin (the (location x)) options s1 = (Inr r, s')" by simp
        with "1.IH" [OF Inr req_def Cons s1_def True]
        obtain cs where "pending s1 = cs @ r # pending s'" "\<forall>x \<in> set cs. isRedirect x"
          "\<not> isRedirect r" by blast
        with P1 Cons True have "pending s = (x # cs) @ r # pending s'
            \<and> (\<forall>y \<in> set (x # cs). isRedirect y) \<and> \<not> isRedirect r" by simp
        then show ?thesis by blast
      next
        case False
        have "fetch origin url options s = (Inr x, s1)"
          unfolding s1_def req_def using Inr Cons False by (rule fetch_direct)
        with "1.prems" have "x = r" "s1 = s'" by simp_all
        with P1 Cons False have "pending s = [] @ r # pending s'
            \<and> (\<forall>y \<in> set []. isRedirect y) \<and> \<not> isRedirect r" by simp
        then show ?thesis by blast
      qed
    qed
  qed
qed

lemma getFolderListing_consumes:
  assumes "getFolderListing origin folderId start endIdx s = (Inr resp, s')"
  shows "\<exists>cs. pending s = cs @ pending s'
           \<and> decodedPages cs = (case envelopeData resp of None \<Rightarrow> [] | Some dat \<Rightarrow> decodePage dat)"
proof -
  obtain r where F: "fetch origin
        (baseUrl (config s) @ ''/FolderListingService.aspx/GetFolderListing2'')
        (listingOptions \<lparr>b_repoName = repoName (config s), b_folderId = folderId,
           b_getNewListing = True, b_start = start, b_end = endIdx,
           b_sortColumn = ''name'', b_sortAscending = True\<rparr>) s = (Inr r, s')"
    and R: "resp = (if \<not> ok r then None else parsedBody r)"
    using assms by (auto simp: getFolderListing_def Let_def split: prod.splits sum.splits)
  from fetch_consumes [OF F] obtain cs where
    cs: "pending s = cs @ r # pending s'" "\<forall>x \<in> set cs. isRedirect x" "\<not> isRedirect r"
    by blast
  have "envelopeData resp = pagePayload r" using R by (simp add: pagePayload_def envelopeData_def)
  then have "decodedPages (cs @ [r])
      = (case envelopeData resp of None \<Rightarrow> [] | Some dat \<Rightarrow> decodePage dat)"
    using cs(2,3) by (simp add: decodedPages_append decodedPages_redirects split: option.splits)
  moreover have "pending s = (cs @ [r]) @ pending s'" using cs(1) by simp
  ultimately show ?thesis by blast
qed

lemma loop_consumes:
  "getAllEntries_loop origin folderId start totalCount firstFetch fname ents s = (Inr fc, s') \<Longrightarrow>
   \<exists>cs. pending s = cs @ pending s' \<and> entries fc = ents @ decodedPages cs"
proof (induction origin folderId start totalCount firstFetch fname ents s
    rule: getAllEntries_loop.induct)
  case (1 origin folderId start totalCount firstFetch fname ents s)
  obtain res s1 where L: "getFolderListing origin folderId start (start + pageSize) s = (res, s1)"
    by (cases "getFolderListing origin folderId start (start + pageSize) s")
  show ?case
  proof (cases res)
    case (Inl e)
    with L "1.prems" show ?thesis by (simp add: loop_raises)
  next
    case (Inr resp)
    from getFolderListing_consumes [OF L [unfolded Inr]] obtain cs where
      cs: "pending s = cs @ pending s1"
        "decodedPages cs = (case envelopeData resp of None \<Rightarrow> [] | Some dat \<Rightarrow> decodePage dat)"
      by blast
    show ?thesis
    proof (cases "envelopeData resp")
      case None
      have "getAllEntries_loop origin folderId start totalCount firstFetch fname ents s
          = (Inr \<lparr>folderName = fname, entries = ents\<rparr>, s1)"
        using L [unfolded Inr] None by (rule loop_no_data)
      with "1.prems" have "entries fc = ents" "s' = s1" by auto
      with cs None have "pending s = cs @ pending s' \<and> entries fc = ents @ decodedPages cs"
        by simp
      then show ?thesis by blast
    next
      case (Some dat)
      define fname' where "fname' = (if firstFetch then nameOr (p_name dat) else fname)"
      define total' where "total' = (if firstFetch then totalOr (totalEntries dat) else totalCount)"
      define ents' where "ents' = ents @ decodePage dat"
      define start' where "start' = start + pageSize"
      have step: "getAllEntries_loop origin folderId start totalCount firstFetch fname ents s
          = (if start' < total'
             then getAllEntries_loop origin folderId start' total' False fname' ents' s1
             else (Inr \<lparr>folderName = fname', entries = ents'\<rparr>, s1))"
        unfolding fname'_def total'_def ents'_def start'_def
        using L [unfolded Inr] Some by (rule loop_page)
      show ?thesis
      proof (cases "start' < total'")
        case True
        with step "1.prems"
        have "getAllEntries_loop origin folderId start' total' False fname' ents' s1 = (Inr fc, s')"
          by simp
        with "1.IH" [OF L [symmetric] Inr Some fname'_def total'_def ents'_def start'_def True]
        obtain ds where "pending s1 = ds @ pending s'" "entries fc = ents' @ decodedPages ds"
          by blast
        with cs Some have "pending s = (cs @ ds) @ pending s'
            \<and> entries fc = ents @ decodedPages (cs @ ds)"
          by (simp add: decodedPages_append ents'_def)
        then show ?thesis by blast
      next
        case False
        with step "1.prems" have "entries fc = ents'" "s' = s1" by auto
        with cs Some have "pending s = cs @ pending s' \<and> entries fc = ents @ decodedPages cs"
          by (simp add: ents'_def)
        then show ?thesis by blast
      qed
    qed
  qed
qed

lemma browseFolder_consumes:
  assumes "browseFolder origin folderId s = (Inr fc, s')"
  shows "\<exists>cs. pending s = cs @ pending s' \<and> entries fc = decodedPages cs"
proof -
  obtain resp where L: "getFolderListing origin folderId 0 100 s = (Inr resp, s')"
    and E: "entries fc = (case envelopeData resp of None \<Rightarrow> [] | Some dat \<Rightarrow> decodePage dat)"
    using assms by (auto simp: browseFolder_def split: prod.splits sum.splits option.splits)
  from getFolderListing_consumes [OF L] E show ?thesis by auto
qed

lemma columnValue_absent: "name \<notin> col_name ` set cols \<Longrightarrow> columnValue name cols result = None"
  by (simp add: columnValue_def)

lemma columnValue_at:
  assumes "cols = xs @ c # ys" and "col_name c = name" and "name \<notin> col_name ` set xs"
    and "row_data result = Some cells" and "length xs < length cells"
  shows "columnValue name cols result = Some (cells ! length xs)"
proof -
  have "\<forall>x \<in> set xs. col_name x \<noteq> name" using assms(3) by (metis image_eqI)
  then have "takeWhile (\<lambda>c. col_name c \<noteq> name) xs = xs" by simp
  moreover have "takeWhile (\<lambda>c. col_name c \<noteq> name) (xs @ c # ys)
      = takeWhile (\<lambda>c. col_name c \<noteq> name) xs"
    using assms(2) by (intro takeWhile_tail) simp
  ultimately have "takeWhile (\<lambda>c. col_name c \<noteq> name) cols = xs"
    unfolding assms(1) by simp
  then show ?thesis using assms(2,4,5) by (simp add: columnValue_def assms(1))
qed

lemma two_page_run:
  "fst (getAllEntries arcadiaOrigin 1
          (newClient arcadiaConfig
             [fixturePage ''F'' (Some 501) [fixtureRow 1]
                [\<lparr>col_name = ''TemplateName''\<rparr>, \<lparr>col_name = ''PageCount''\<rparr>],
              fixturePage ''F'' None
                [\<lparr>row_name = ''Minutes'', entryId = 2, row_type = 1,
                  row_data = Some [JNum 9, JStr ''CC - Minutes'']\<rparr>]
                [\<lparr>col_name = ''PageCount''\<rparr>, \<lparr>col_name = ''TemplateName''\<rparr>]]))
   = Inr \<lparr>folderName = ''F'',
          entries =
            [\<lparr>entry_id = 1, entry_name = ''Agenda'', entry_type = ''Document'',
              pageCount = Some (JNum 7), template = Some (JStr ''CC - Agendas''),
              creationDate = None, modificationDate = None\<rparr>,
             \<lparr>entry_id = 2, entry_name = ''Minutes'', entry_type = ''Document'',
              pageCount = Some (JNum 9), template = Some (JStr ''CC - Minutes''),
              creationDate = None, modificationDate = None\<rparr>]\<rparr>"
  by (simp add: getAllEntries_def getAllEntries_loop.simps getFolderListing_def fetch.simps
      resolveUrl_def startsWith_def newClient_def arcadiaConfig_def fixturePage_def fixtureRow_def
      isRedirect_def parseCookies_def ok_def envelopeData_def decodePage_def toEntry_def
      cellAt_def getEntryType_def types_def nameOr_def totalOr_def pageSize_def Let_def)

lemma one_page_browse:
  "fst (browseFolder arcadiaOrigin 1
          (newClient arcadiaConfig
             [fixturePage ''F'' (Some 501) [fixtureRow 1]
                [\<lparr>col_name = ''TemplateName''\<rparr>, \<lparr>col_name = ''PageCount''\<rparr>],
              fixturePage ''F'' None
                [\<lparr>row_name = ''Minutes'', entryId = 2, row_type = 1,
                  row_data = Some [JNum 9, JStr ''CC - Minutes'']\<rparr>]
                [\<lparr>col_name = ''PageCount''\<rparr>, \<lparr>col_name = ''TemplateName''\<rparr>]]))
   = Inr \<lparr>folderName = ''F'',
          entries =
            [\<lparr>entry_id = 1, entry_name = ''Agenda'', entry_type = ''Document'',
              pageCount = Some (JNum 7), template = Some (JStr ''CC - Agendas''),
              creationDate = None, modificationDate = None\<rparr>]\<rparr>"
  by (simp add: browseFolder_def getFolderListing_def fetch.simps
      resolveUrl_def startsWith_def newClient_def arcadiaConfig_def fixturePage_def fixtureRow_def
      isRedirect_def parseCookies_def ok_def envelopeData_def decodePage_def toEntry_def
      cellAt_def getEntryType_def types_def nameOr_def Let_def)

text \<open>
  C4. In every run of \<open>getAllEntries\<close> or \<open>browseFolder\<close> that returns, the entries are those
  of the final responses consumed, each page decoded on its own (\<open>decodedPages\<close>). A page is
  decoded row by row; \<open>pageCount\<close>, \<open>template\<close>, \<open>creationDate\<close> and \<open>modificationDate\<close>
  are the cells of the row's data array at the first positions at which this page's
  \<open>colTypes\<close> lists \<open>PageCount\<close>, \<open>TemplateName\<close>, \<open>CreationDate\<close> and \<open>LastModified\<close>; a
  name the page does not list leaves its field absent. With columns \<open>TemplateName\<close>,
  \<open>PageCount\<close> and data \<open>["CC - Agendas", 7]\<close> the entry has template \<open>CC - Agendas\<close> and
  page count 7.
\<close>

theorem columns_resolved_per_page:
  "(getAllEntries origin folderId s = (Inr fc, s') \<longrightarrow>
      (\<exists>cs. pending s = cs @ pending s' \<and> entries fc = decodedPages cs))
   \<and> (browseFolder origin folderId s = (Inr fb, sb) \<longrightarrow>
      (\<exists>cs. pending s = cs @ pending sb \<and> entries fb = decodedPages cs))
   \<and> decodePage dat
       = map (\<lambda>result.
           \<lparr>entry_id = entryId result, entry_name = row_name result,
            entry_type = getEntryType (row_type result),
            pageCount = columnValue ''PageCount'' (pageColumns dat) result,
            template = columnValue ''TemplateName'' (pageColumns dat) result,
            creationDate = columnValue ''CreationDate'' (pageColumns dat) result,
            modificationDate = columnValue ''LastModified'' (pageColumns dat) result\<rparr>)
         (pageRows dat)
   \<and> (absent \<notin> col_name ` set cols \<longrightarrow> columnValue absent cols result = None)
   \<and> (cols = xs @ c # ys \<and> col_name c = name \<and> name \<notin> col_name ` set xs
        \<and> row_data result = Some cells \<and> length xs < length cells \<longrightarrow>
        columnValue name cols result = Some (cells ! length xs))
   \<and> decodePage
        \<lparr>p_name = n, totalEntries = t,
         results = Some [\<lparr>row_name = rn, entryId = i, row_type = ty,
                          row_data = Some [JStr ''CC - Agendas'', JNum 7]\<rparr>],
         colTypes = Some [\<lparr>col_name = ''TemplateName''\<rparr>, \<lparr>col_name = ''PageCount''\<rparr>]\<rparr>
       = [\<lparr>entry_id = i, entry_name = rn, entry_type = getEntryType ty,
           pageCount = Some (JNum 7), template = Some (JStr ''CC - Agendas''),
           creationDate = None, modificationDate = None\<rparr>]"
proof (intro conjI impI)
  show "\<exists>cs. pending s = cs @ pending s' \<and> entries fc = decodedPages cs"
    if "getAllEntries origin folderId s = (Inr fc, s')"
    using loop_consumes [of origin folderId 0 0 True "[]" "[]" s fc s'] that
    by (simp add: getAllEntries_def)
  show "\<exists>cs. pending s = cs @ pending sb \<and> entries fb = decodedPages cs"
    if "browseFolder origin folderId s = (Inr fb, sb)"
    using that by (rule browseFolder_consumes)
  show "decodePage dat
       = map (\<lambda>result.
           \<lparr>entry_id = entryId result, entry_name = row_name result,
            entry_type = getEntryType (row_type result),
            pageCount = columnValue ''PageCount'' (pageColumns dat) result,
            template = columnValue ''TemplateName'' (pageColumns dat) result,
            creationDate = columnValue ''CreationDate'' (pageColumns dat) result,
            modificationDate = columnValue ''LastModified'' (pageColumns dat) result\<rparr>)
         (pageRows dat)"
    by (rule decodePage_columns)
  show "columnValue absent cols result = None" if "absent \<notin> col_name ` set cols"
    using that by (rule columnValue_absent)
  show "columnValue name cols result = Some (cells ! length xs)"
    if "cols = xs @ c # ys \<and> col_name c = name \<and> name \<notin> col_name ` set xs
        \<and> row_data result = Some cells \<and> length xs < length cells"
    using that columnValue_at [of cols xs c ys name result cells] by blast
  show "decodePage
        \<lparr>p_name = n, totalEntries = t,
         results = Some [\<lparr>row_name = rn, entryId = i, row_type = ty,
                          row_data = Some [JStr ''CC - Agendas'', JNum 7]\<rparr>],
         colTypes = Some [\<lparr>col_name = ''TemplateName''\<rparr>, \<lparr>col_name = ''PageCount''\<rparr>]\<rparr>
       = [\<lparr>entry_id = i, entry_name = rn, entry_type = getEntryType ty,
           pageCount = Some (JNum 7), template = Some (JStr ''CC - Agendas''),
           creationDate = None, modificationDate = None\<rparr>]"
    by (simp add: decodePage_def Let_def toEntry_def cellAt_def)
qed

theorem columns_resolved_per_page_witness:
  "(\<exists>fc s' fb sb cs ds.
      getAllEntries arcadiaOrigin 1
        (newClient arcadiaConfig
           [fixturePage ''F'' (Some 501) [fixtureRow 1]
              [\<lparr>col_name = ''TemplateName''\<rparr>, \<lparr>col_name = ''PageCount''\<rparr>],
            fixturePage ''F'' None
              [\<lparr>row_name = ''Minutes'', entryId = 2, row_type = 1,
                row_data = Some [JNum 9, JStr ''CC - Minutes'']\<rparr>]
              [\<lparr>col_name = ''PageCount''\<rparr>, \<lparr>col_name = ''TemplateName''\<rparr>]]) = (Inr fc, s')
      \<and> map template (entries fc) = [Some (JStr ''CC - Agendas''), Some (JStr ''CC - Minutes'')]
      \<and> map pageCount (entries fc) = [Some (JNum 7), Some (JNum 9)]
      \<and> entries fc = decodedPages cs \<and> length cs = 2 \<and> pending s' = []
      \<and> browseFolder arcadiaOrigin 1
        (newClient arcadiaConfig
           [fixturePage ''F'' (Some 501) [fixtureRow 1]
              [\<lparr>col_name = ''TemplateName''\<rparr>, \<lparr>col_name = ''PageCount''\<rparr>],
            fixturePage ''F'' None
              [\<lparr>row_name = ''Minutes'', entryId = 2, row_type = 1,
                row_data = Some [JNum 9, JStr ''CC - Minutes'']\<rparr>]
              [\<lparr>col_name = ''PageCount''\<rparr>, \<lparr>col_name = ''TemplateName''\<rparr>]]) = (Inr fb, sb)
      \<and> entries fb = decodedPages ds \<and> length (entries fb) = 1)
   \<and> ''CreationDate'' \<notin> col_name ` set [\<lparr>col_name = ''PageCount''\<rparr>, \<lparr>col_name = ''TemplateName''\<rparr>]
   \<and> columnValue ''CreationDate'' [\<lparr>col_name = ''PageCount''\<rparr>, \<lparr>col_name = ''TemplateName''\<rparr>]
        (fixtureRow 1) = None
   \<and> ''TemplateName'' \<notin> col_name ` set [\<lparr>col_name = ''PageCount''\<rparr>]
   \<and> row_data (fixtureRow 1) = Some [JStr ''CC - Agendas'', JNum 7]
   \<and> columnValue ''TemplateName'' [\<lparr>col_name = ''PageCount''\<rparr>, \<lparr>col_name = ''TemplateName''\<rparr>]
        (fixtureRow 1) = Some (JNum 7)"
proof -
  let ?s = "newClient arcadiaConfig
           [fixturePage ''F'' (Some 501) [fixtureRow 1]
              [\<lparr>col_name = ''TemplateName''\<rparr>, \<lparr>col_name = ''PageCount''\<rparr>],
            fixturePage ''F'' None
              [\<lparr>row_name = ''Minutes'', entryId = 2, row_type = 1,
                row_data = Some [JNum 9, JStr ''CC - Minutes'']\<rparr>]
              [\<lparr>col_name = ''PageCount''\<rparr>, \<lparr>col_name = ''TemplateName''\<rparr>]]"
  let ?fc = "\<lparr>folderName = ''F'',
          entries =
            [\<lparr>entry_id = 1, entry_name = ''Agenda'', entry_type = ''Document'',
              pageCount = Some (JNum 7), template = Some (JStr ''CC - Agendas''),
              creationDate = None, modificationDate = None\<rparr>,
             \<lparr>entry_id = 2, entry_name = ''Minutes'', entry_type = ''Document'',
              pageCount = Some (JNum 9), template = Some (JStr ''CC - Minutes''),
              creationDate = None, modificationDate = None\<rparr>]\<rparr>"
  let ?fb = "\<lparr>folderName = ''F'',
          entries =
            [\<lparr>entry_id = 1, entry_name = ''Agenda'', entry_type = ''Document'',
              pageCount = Some (JNum 7), template = Some (JStr ''CC - Agendas''),
              creationDate = None, modificationDate = None\<rparr>]\<rparr>"
  let ?s' = "snd (getAllEntries arcadiaOrigin 1 ?s)"
  let ?sb = "snd (browseFolder arcadiaOrigin 1 ?s)"
  note T = columns_resolved_per_page [where origin = arcadiaOrigin and folderId = 1 and s = ?s
      and fc = ?fc and s' = ?s' and fb = ?fb and sb = ?sb
      and absent = "''CreationDate''"
      and cols = "[\<lparr>col_name = ''PageCount''\<rparr>, \<lparr>col_name = ''TemplateName''\<rparr>]"
      and result = "fixtureRow 1" and xs = "[\<lparr>col_name = ''PageCount''\<rparr>]"
      and c = "\<lparr>col_name = ''TemplateName''\<rparr>" and ys = "[]" and name = "''TemplateName''"
      and cells = "[JStr ''CC - Agendas'', JNum 7]"]
  have A: "getAllEntries arcadiaOrigin 1 ?s = (Inr ?fc, ?s')"
    using two_page_run by (simp add: prod_eq_iff)
  have B: "browseFolder arcadiaOrigin 1 ?s = (Inr ?fb, ?sb)"
    using one_page_browse by (simp add: prod_eq_iff)
  from T [THEN conjunct1] A obtain cs where
    cs: "pending ?s = cs @ pending ?s'" "entries ?fc = decodedPages cs" by blast
  from T [THEN conjunct2, THEN conjunct1] B obtain ds where
    ds: "pending ?s = ds @ pending ?sb" "entries ?fb = decodedPages ds" by blast
  have P: "pending ?s' = []"
    by (simp add: getAllEntries_def getAllEntries_loop.simps getFolderListing_def fetch.simps
      resolveUrl_def startsWith_def newClient_def arcadiaConfig_def fixturePage_def
      isRedirect_def parseCookies_def ok_def envelopeData_def totalOr_def pageSize_def Let_def)
  have "length (pending ?s) = 2" by (simp add: newClient_def)
  moreover have "pending ?s = cs" using cs(1) P by simp
  ultimately have len: "length cs = 2" by simp
  have m1: "map template (entries ?fc) = [Some (JStr ''CC - Agendas''), Some (JStr ''CC - Minutes'')]"
    and m2: "map pageCount (entries ?fc) = [Some (JNum 7), Some (JNum 9)]"
    and l1: "length (entries ?fb) = 1"
    by simp_all
  have run: "\<exists>fc s' fb sb cs ds.
      getAllEntries arcadiaOrigin 1 ?s = (Inr fc, s')
      \<and> map template (entries fc) = [Some (JStr ''CC - Agendas''), Some (JStr ''CC - Minutes'')]
      \<and> map pageCount (entries fc) = [Some (JNum 7), Some (JNum 9)]
      \<and> entries fc = decodedPages cs \<and> length cs = 2 \<and> pending s' = []
      \<and> browseFolder arcadiaOrigin 1 ?s = (Inr fb, sb)
      \<and> entries fb = decodedPages ds \<and> length (entries fb) = 1"
    by (rule exI [of _ ?fc], rule exI [of _ ?s'], rule exI [of _ ?fb], rule exI [of _ ?sb],
        rule exI [of _ cs], rule exI [of _ ds])
       (intro conjI A m1 m2 cs(2) len P B ds(2) l1)
  have h1: "''CreationDate'' \<notin> col_name ` set [\<lparr>col_name = ''PageCount''\<rparr>, \<lparr>col_name = ''TemplateName''\<rparr>]"
    and h2: "''TemplateName'' \<notin> col_name ` set [\<lparr>col_name = ''PageCount''\<rparr>]"
    and h3: "row_data (fixtureRow 1) = Some [JStr ''CC - Agendas'', JNum 7]"
    by (simp_all add: fixtureRow_def)
  have c1: "columnValue ''CreationDate'' [\<lparr>col_name = ''PageCount''\<rparr>, \<lparr>col_name = ''TemplateName''\<rparr>]
        (fixtureRow 1) = None"
    using T [THEN conjunct2, THEN conjunct2, THEN conjunct2, THEN conjunct1] h1 by blast
  have c2: "columnValue ''TemplateName'' [\<lparr>col_name = ''PageCount''\<rparr>, \<lparr>col_name = ''TemplateName''\<rparr>]
        (fixtureRow 1) = Some (JNum 7)"
    using T [THEN conjunct2, THEN conjunct2, THEN conjunct2, THEN conjunct2, THEN conjunct1]
      h2 h3 by simp
  from run h1 c1 h2 h3 c2 show ?thesis by blast
qed

subsection \<open>The envelope key\<close>

lemma sameUpToEnvelope_facts:
  assumes "sameUpToEnvelope r r'"
  shows "isRedirect r' = isRedirect r" and "ok r' = ok r"
    and "pagePayload r' = pagePayload r" and "location r' = location r"
    and "cookies (parseCookies r' t) = foldl storeCookie (cookies t) (setCookie r)"
  using assms
  by (auto simp: sameUpToEnvelope_def isRedirect_def ok_def pagePayload_def parseCookies_def
      split: option.splits)

lemma fetch_sim:
  "sameBackend s t \<Longrightarrow>
   rel_sum (=) sameUpToEnvelope (fst (fetch origin url options s)) (fst (fetch origin url options t))
   \<and> sameBackend (snd (fetch origin url options s)) (snd (fetch origin url options t))"
proof (induction origin url options s arbitrary: t rule: fetch.induct)
  case (1 origin url options s)
  have cfg: "config t = config s" and jar: "cookies t = cookies s"
    and pend: "list_all2 sameUpToEnvelope (pending s) (pending t)"
    using "1.prems" by (simp_all add: sameBackend_def)
  show ?case
  proof (cases "resolveUrl origin (config s) url")
    case (Inl e)
    then show ?thesis using "1.prems" cfg by (simp add: fetch_error)
  next
    case (Inr fullUrl)
    then have Inr': "resolveUrl origin (config t) url = Inr fullUrl" using cfg by simp
    show ?thesis
    proof (cases "pending s")
      case Nil
      then have "pending t = []" using pend by simp
      with Nil Inr Inr' show ?thesis
        using cfg jar by (simp add: fetch_exhausted sameBackend_def)
    next
      case (Cons r rest)
      then obtain r' rest' where Cons': "pending t = r' # rest'"
        and rr: "sameUpToEnvelope r r'" and rest: "list_all2 sameUpToEnvelope rest rest'"
        using pend by (auto simp: list_all2_Cons1)
      define s1 where "s1 = parseCookies r
          (s\<lparr>pending := rest, sent := sent s @ [buildRequest fullUrl options s]\<rparr>)"
      define t1 where "t1 = parseCookies r'
          (t\<lparr>pending := rest', sent := sent t @ [buildRequest fullUrl options t]\<rparr>)"
      have sim1: "sameBackend s1 t1"
        using cfg jar rest sameUpToEnvelope_facts(5) [OF rr]
        by (simp add: sameBackend_def s1_def t1_def parseCookies_frame)
           (simp add: parseCookies_def)
      show ?thesis
      proof (cases "isRedirect r")
        case True
        then have True': "isRedirect r'" using sameUpToEnvelope_facts(1) [OF rr] by simp
        have Fs: "fetch origin url options s = fetch origin (the (location r)) options s1"
          unfolding s1_def using Inr Cons True by (rule fetch_redirect)
        have Ft: "fetch origin url options t = fetch origin (the (location r')) options t1"
          unfolding t1_def using Inr' Cons' True' by (rule fetch_redirect)
        have "location r' = location r" using rr by (rule sameUpToEnvelope_facts(4))
        with "1.IH" [OF Inr refl Cons s1_def [unfolded s1_def] True, folded s1_def, OF sim1]
        show ?thesis by (simp add: Fs Ft)
      next
        case False
        then have False': "\<not> isRedirect r'" using sameUpToEnvelope_facts(1) [OF rr] by simp
        have Fs: "fetch origin url options s = (Inr r, s1)"
          unfolding s1_def using Inr Cons False by (rule fetch_direct)
        have Ft: "fetch origin url options t = (Inr r', t1)"
          unfolding t1_def using Inr' Cons' False' by (rule fetch_direct)
        show ?thesis using rr sim1 by (simp add: Fs Ft)
      qed
    qed
  qed
qed

lemma envelopeData_listing:
  "envelopeData (if \<not> ok r then None else parsedBody r) = pagePayload r"
  by (simp add: pagePayload_def envelopeData_def)

lemma getFolderListing_sim:
  assumes "sameBackend s t"
  shows "rel_sum (=) (\<lambda>a b. envelopeData b = envelopeData a)
           (fst (getFolderListing origin folderId start endIdx s))
           (fst (getFolderListing origin folderId start endIdx t))
   \<and> sameBackend (snd (getFolderListing origin folderId start endIdx s))
         (snd (getFolderListing origin folderId start endIdx t))"
proof -
  let ?url = "baseUrl (config s) @ ''/FolderListingService.aspx/GetFolderListing2''"
  let ?opts = "listingOptions \<lparr>b_repoName = repoName (config s), b_folderId = folderId,
           b_getNewListing = True, b_start = start, b_end = endIdx,
           b_sortColumn = ''name'', b_sortAscending = True\<rparr>"
  have cfg: "config t = config s" using assms by (simp add: sameBackend_def)
  obtain x s' where Fs: "fetch origin ?url ?opts s = (x, s')" by (cases "fetch origin ?url ?opts s")
  obtain y t' where Ft: "fetch origin ?url ?opts t = (y, t')" by (cases "fetch origin ?url ?opts t")
  from fetch_sim [OF assms, of origin ?url ?opts] Fs Ft
  have rel: "rel_sum (=) sameUpToEnvelope x y" and sim: "sameBackend s' t'" by simp_all
  show ?thesis
  proof (cases x)
    case (Inl e)
    with rel have "y = Inl e" by (cases y) simp_all
    with Inl Fs Ft sim cfg show ?thesis by (simp add: getFolderListing_def)
  next
    case (Inr r)
    with rel obtain r' where y: "y = Inr r'" and rr: "sameUpToEnvelope r r'"
      by (cases y) simp_all
    have "envelopeData (if \<not> ok r' then None else parsedBody r')
        = envelopeData (if \<not> ok r then None else parsedBody r)"
      using sameUpToEnvelope_facts(3) [OF rr] by (simp only: envelopeData_listing)
    with Inr y Fs Ft sim cfg show ?thesis by (simp add: getFolderListing_def)
  qed
qed

lemma loop_sim:
  "sameBackend s t \<Longrightarrow>
   fst (getAllEntries_loop origin folderId start totalCount firstFetch fname ents t)
     = fst (getAllEntries_loop origin folderId start totalCount firstFetch fname ents s)"
proof (induction origin folderId start totalCount firstFetch fname ents s arbitrary: t
    rule: getAllEntries_loop.induct)
  case (1 origin folderId start totalCount firstFetch fname ents s)
  obtain x s' where Ls: "getFolderListing origin folderId start (start + pageSize) s = (x, s')"
    by (cases "getFolderListing origin folderId start (start + pageSize) s")
  obtain y t' where Lt: "getFolderListing origin folderId start (start + pageSize) t = (y, t')"
    by (cases "getFolderListing origin folderId start (start + pageSize) t")
  from getFolderListing_sim [OF "1.prems", of origin folderId start "start + pageSize"] Ls Lt
  have rel: "rel_sum (=) (\<lambda>a b. envelopeData b = envelopeData a) x y"
    and sim: "sameBackend s' t'" by simp_all
  show ?case
  proof (cases x)
    case (Inl e)
    with rel have "y = Inl e" by (cases y) simp_all
    with Inl Ls Lt show ?thesis by (simp add: loop_raises)
  next
    case (Inr resp)
    with rel obtain resp' where y: "y = Inr resp'" and E: "envelopeData resp' = envelopeData resp"
      by (cases y) simp_all
    show ?thesis
    proof (cases "envelopeData resp")
      case None
      with Inr y E Ls Lt show ?thesis by (simp add: loop_no_data)
    next
      case (Some dat)
      define fname' where "fname' = (if firstFetch then nameOr (p_name dat) else fname)"
      define total' where "total' = (if firstFetch then totalOr (totalEntries dat) else totalCount)"
      define ents' where "ents' = ents @ decodePage dat"
      define start' where "start' = start + pageSize"
      have Ss: "getAllEntries_loop origin folderId start totalCount firstFetch fname ents s
          = (if start' < total'
             then getAllEntries_loop origin folderId start' total' False fname' ents' s'
             else (Inr \<lparr>folderName = fname', entries = ents'\<rparr>, s'))"
        unfolding fname'_def total'_def ents'_def start'_def
        using Ls [unfolded Inr] Some by (rule loop_page)
      have St: "getAllEntries_loop origin folderId start totalCount firstFetch fname ents t
          = (if start' < total'
             then getAllEntries_loop origin folderId start' total' False fname' ents' t'
             else (Inr \<lparr>folderName = fname', entries = ents'\<rparr>, t'))"
        unfolding fname'_def total'_def ents'_def start'_def
        using Lt [unfolded y] E [unfolded Some] by (rule loop_page)
      show ?thesis
      proof (cases "start' < total'")
        case True
        have "fst (getAllEntries_loop origin folderId start' total' False fname' ents' t')
            = fst (getAllEntries_loop origin folderId start' total' False fname' ents' s')"
          using "1.IH" [OF Ls [symmetric] Inr Some fname'_def total'_def ents'_def start'_def
              True sim] .
        with True show ?thesis by (simp add: Ss St)
      next
        case False
        then show ?thesis by (simp add: Ss St)
      qed
    qed
  qed
qed

lemma browseFolder_sim:
  assumes "sameBackend s t"
  shows "fst (browseFolder origin folderId t) = fst (browseFolder origin folderId s)"
proof -
  obtain x s' where Ls: "getFolderListing origin folderId 0 100 s = (x, s')"
    by (cases "getFolderListing origin folderId 0 100 s")
  obtain y t' where Lt: "getFolderListing origin folderId 0 100 t = (y, t')"
    by (cases "getFolderListing origin folderId 0 100 t")
  from getFolderListing_sim [OF assms, of origin folderId 0 100] Ls Lt
  have rel: "rel_sum (=) (\<lambda>a b. envelopeData b = envelopeData a) x y" by simp
  show ?thesis
  proof (cases x)
    case (Inl e)
    with rel have "y = Inl e" by (cases y) simp_all
    with Inl Ls Lt show ?thesis by (simp add: browseFolder_def)
  next
    case (Inr resp)
    with rel obtain resp' where "y = Inr resp'" "envelopeData resp' = envelopeData resp"
      by (cases y) simp_all
    with Inr Ls Lt show ?thesis by (simp add: browseFolder_def split: option.splits)
  qed
qed

text \<open>
  C2. A response \<open>{data: P}\<close> and the response \<open>{d: P}\<close> with the same status and headers
  unwrap to the same payload \<open>P\<close>. Two clients with the same configuration and jar, whose
  backends answer with responses that differ at most in the envelope key, get the same
  \<open>FolderContents\<close> (or the same exception) from \<open>getAllEntries\<close> and from \<open>browseFolder\<close>.
\<close>

theorem envelope_key_irrelevant:
  "envelopeData (Some \<lparr>env_data = Some P, env_d = None\<rparr>) = Some P
   \<and> envelopeData (Some \<lparr>env_data = None, env_d = Some P\<rparr>) = Some P
   \<and> sameUpToEnvelope
        \<lparr>status = st, location = loc, setCookie = cs,
         json_body = Resolved (Some \<lparr>env_data = Some P, env_d = None\<rparr>)\<rparr>
        \<lparr>status = st, location = loc, setCookie = cs,
         json_body = Resolved (Some \<lparr>env_data = None, env_d = Some P\<rparr>)\<rparr>
   \<and> (sameBackend s t \<longrightarrow>
        fst (getAllEntries origin folderId t) = fst (getAllEntries origin folderId s)
        \<and> fst (browseFolder origin folderId t) = fst (browseFolder origin folderId s))"
proof (intro conjI impI)
  show "envelopeData (Some \<lparr>env_data = Some P, env_d = None\<rparr>) = Some P"
    and "envelopeData (Some \<lparr>env_data = None, env_d = Some P\<rparr>) = Some P"
    by (simp_all add: envelopeData_def)
  show "sameUpToEnvelope
        \<lparr>status = st, location = loc, setCookie = cs,
         json_body = Resolved (Some \<lparr>env_data = Some P, env_d = None\<rparr>)\<rparr>
        \<lparr>status = st, location = loc, setCookie = cs,
         json_body = Resolved (Some \<lparr>env_data = None, env_d = Some P\<rparr>)\<rparr>"
    by (simp add: sameUpToEnvelope_def envelopeData_def)
  show "fst (getAllEntries origin folderId t) = fst (getAllEntries origin folderId s)"
    if "sameBackend s t"
    unfolding getAllEntries_def using that by (rule loop_sim)
  show "fst (browseFolder origin folderId t) = fst (browseFolder origin folderId s)"
    if "sameBackend s t"
    using that by (rule browseFolder_sim)
qed

theorem envelope_key_irrelevant_witness:
  "sameBackend
     (newClient arcadiaConfig
        [fixturePage ''F'' (Some 501) [fixtureRow 1]
           [\<lparr>col_name = ''TemplateName''\<rparr>, \<lparr>col_name = ''PageCount''\<rparr>],
         fixturePage ''F'' None [fixtureRow 2]
           [\<lparr>col_name = ''TemplateName''\<rparr>, \<lparr>col_name = ''PageCount''\<rparr>]])
     (newClient arcadiaConfig
        [\<lparr>status = 200, location = None, setCookie = [],
          json_body = Resolved (Some \<lparr>env_data = None,
            env_d = Some \<lparr>p_name = Some ''F'', totalEntries = Some 501,
              results = Some [fixtureRow 1],
              colTypes = Some [\<lparr>col_name = ''TemplateName''\<rparr>, \<lparr>col_name = ''PageCount''\<rparr>]\<rparr>\<rparr>)\<rparr>,
         fixturePage ''F'' None [fixtureRow 2]
           [\<lparr>col_name = ''TemplateName''\<rparr>, \<lparr>col_name = ''PageCount''\<rparr>]])
   \<and> fst (getAllEntries arcadiaOrigin 1
        (newClient arcadiaConfig
          [\<lparr>status = 200, location = None, setCookie = [],
            json_body = Resolved (Some \<lparr>env_data = None,
              env_d = Some \<lparr>p_name = Some ''F'', totalEntries = Some 501,
                results = Some [fixtureRow 1],
                colTypes = Some [\<lparr>col_name = ''TemplateName''\<rparr>, \<lparr>col_name = ''PageCount''\<rparr>]\<rparr>\<rparr>)\<rparr>,
           fixturePage ''F'' None [fixtureRow 2]
             [\<lparr>col_name = ''TemplateName''\<rparr>, \<lparr>col_name = ''PageCount''\<rparr>]]))
     = fst (getAllEntries arcadiaOrigin 1
        (newClient arcadiaConfig
          [fixturePage ''F'' (Some 501) [fixtureRow 1]
             [\<lparr>col_name = ''TemplateName''\<rparr>, \<lparr>col_name = ''PageCount''\<rparr>],
           fixturePage ''F'' None [fixtureRow 2]
             [\<lparr>col_name = ''TemplateName''\<rparr>, \<lparr>col_name = ''PageCount''\<rparr>]]))"
proof -
  let ?s = "newClient arcadiaConfig
        [fixturePage ''F'' (Some 501) [fixtureRow 1]
           [\<lparr>col_name = ''TemplateName''\<rparr>, \<lparr>col_name = ''PageCount''\<rparr>],
         fixturePage ''F'' None [fixtureRow 2]
           [\<lparr>col_name = ''TemplateName''\<rparr>, \<lparr>col_name = ''PageCount''\<rparr>]]"
  let ?t = "newClient arcadiaConfig
        [\<lparr>status = 200, location = None, setCookie = [],
          json_body = Resolved (Some \<lparr>env_data = None,
            env_d = Some \<lparr>p_name = Some ''F'', totalEntries = Some 501,
              results = Some [fixtureRow 1],
              colTypes = Some [\<lparr>col_name = ''TemplateName''\<rparr>, \<lparr>col_name = ''PageCount''\<rparr>]\<rparr>\<rparr>)\<rparr>,
         fixturePage ''F'' None [fixtureRow 2]
           [\<lparr>col_name = ''TemplateName''\<rparr>, \<lparr>col_name = ''PageCount''\<rparr>]]"
  have sim: "sameBackend ?s ?t"
    by (simp add: sameBackend_def newClient_def sameUpToEnvelope_def fixturePage_def
        envelopeData_def)
  from envelope_key_irrelevant [where s = ?s and t = ?t and origin = arcadiaOrigin
      and folderId = 1, THEN conjunct2, THEN conjunct2, THEN conjunct2] sim
  have "fst (getAllEntries arcadiaOrigin 1 ?t) = fst (getAllEntries arcadiaOrigin 1 ?s)"
    by blast
  with sim show ?thesis by blast
qed

subsection \<open>The legacy script against the library\<close>

lemma resolveUrl_legacy_eq:
  "origin BASE_URL = Some ''https://laserfiche.arcadiaca.gov'' \<Longrightarrow>
   resolveUrl origin arcadiaConfig url = Inr (resolveUrl_legacy url)"
  by (simp add: resolveUrl_def resolveUrl_legacy_def arcadiaConfig_def BASE_URL_def)

lemma fetch_legacy_eq:
  "origin BASE_URL = Some ''https://laserfiche.arcadiaca.gov'' \<Longrightarrow>
   config s = arcadiaConfig \<Longrightarrow>
   fetch_legacy url options s = fetch origin url options s"
proof (induction url options s rule: fetch_legacy.induct)
  case (1 url options s)
  have U: "resolveUrl origin (config s) url = Inr (resolveUrl_legacy url)"
    using "1.prems" by (simp add: resolveUrl_legacy_eq)
  show ?case
  proof (cases "pending s")
    case Nil
    then show ?thesis
      by (subst fetch_legacy.simps) (simp add: fetch_exhausted [OF U] Let_def)
  next
    case (Cons r rest)
    define s' where "s' = parseCookies r
        (s\<lparr>pending := rest, sent := sent s @ [buildRequest (resolveUrl_legacy url) options s]\<rparr>)"
    have K: "config s' = arcadiaConfig"
      using "1.prems"(2) by (simp add: s'_def parseCookies_frame)
    show ?thesis
    proof (cases "isRedirect r")
      case True
      have "fetch_legacy url options s = fetch_legacy (the (location r)) options s'"
        using Cons True by (subst fetch_legacy.simps) (simp add: Let_def s'_def)
      also have "\<dots> = fetch origin (the (location r)) options s'"
        using "1.IH" [OF refl refl Cons s'_def [unfolded s'_def] True, folded s'_def,
            OF "1.prems"(1) K] .
      also have "\<dots> = fetch origin url options s"
        unfolding s'_def using fetch_redirect [OF U Cons True] by simp
      finally show ?thesis .
    next
      case False
      have "fetch_legacy url options s = (Inr r, s')"
        using Cons False by (subst fetch_legacy.simps) (simp add: Let_def s'_def)
      also have "\<dots> = fetch origin url options s"
        unfolding s'_def using fetch_direct [OF U Cons False] by simp
      finally show ?thesis .
    qed
  qed
qed

lemma numToString_0: "numToString 0 = ''0''"
  by (simp add: numToString_def digits.simps digitChar_def)

lemma initSession_legacy_eq:
  assumes "origin BASE_URL = Some ''https://laserfiche.arcadiaca.gov''"
    and "config s = arcadiaConfig"
  shows "initSession_legacy s = initSession origin s"
proof -
  have B: "baseUrl arcadiaConfig = BASE_URL" "repoName arcadiaConfig = REPO"
    "dbid arcadiaConfig = 0"
    by (simp_all add: arcadiaConfig_def BASE_URL_def REPO_def)
  obtain x s1 where F1: "fetch origin (BASE_URL @ ''/'') noOptions s = (x, s1)"
    by (cases "fetch origin (BASE_URL @ ''/'') noOptions s")
  have K1: "config s1 = arcadiaConfig"
    using fetch_config [of origin "BASE_URL @ ''/''" noOptions s] F1 assms(2) by simp
  have L1: "fetch_legacy (BASE_URL @ ''/'') noOptions s = (x, s1)"
    using fetch_legacy_eq [of origin s, OF assms] F1 by simp
  have L2: "fetch_legacy (BASE_URL @ ''/Login.aspx?dbid=0&repo='' @ REPO) noOptions s1
      = fetch origin (BASE_URL @ ''/Login.aspx?dbid=0&repo='' @ REPO) noOptions s1"
    using assms(1) K1 by (rule fetch_legacy_eq)
  show ?thesis
    using F1 L1 L2 K1 assms(2)
    by (simp add: initSession_legacy_def initSession_def B numToString_0 split: sum.splits)
qed

lemma getFolderListing_legacy_eq:
  assumes "origin BASE_URL = Some ''https://laserfiche.arcadiaca.gov''"
    and "config s = arcadiaConfig"
  shows "getFolderListing_legacy folderId start endIdx s
           = getFolderListing origin folderId start endIdx s"
proof -
  have B: "baseUrl arcadiaConfig = BASE_URL" "repoName arcadiaConfig = REPO"
    by (simp_all add: arcadiaConfig_def BASE_URL_def REPO_def)
  show ?thesis
    by (simp add: getFolderListing_legacy_def getFolderListing_def Let_def assms(2) B
        fetch_legacy_eq [of origin s, OF assms])
qed

lemma getEntryType_legacy_eq: "n \<noteq> - 2 \<Longrightarrow> getEntryType_legacy n = getEntryType n"
  by (simp add: getEntryType_legacy_def getEntryType_def types_legacy_def types_def)

lemma decodePage_legacy_eq:
  "\<forall>result \<in> set (pageRows dat). row_type result \<noteq> - 2 \<Longrightarrow>
   decodePage_legacy dat = decodePage dat"
  by (simp add: decodePage_legacy_def decodePage_def Let_def toEntry_legacy_def toEntry_def
      pageRows_def getEntryType_legacy_eq)

text \<open>The payload a listing call unwraps is that of the last response it consumed.\<close>

lemma getFolderListing_final:
  assumes "getFolderListing origin folderId start endIdx s = (Inr resp, s')"
  shows "\<exists>cs r. pending s = cs @ r # pending s' \<and> envelopeData resp = pagePayload r"
proof -
  obtain r where F: "fetch origin
        (baseUrl (config s) @ ''/FolderListingService.aspx/GetFolderListing2'')
        (listingOptions \<lparr>b_repoName = repoName (config s), b_folderId = folderId,
           b_getNewListing = True, b_start = start, b_end = endIdx,
           b_sortColumn = ''name'', b_sortAscending = True\<rparr>) s = (Inr r, s')"
    and R: "resp = (if \<not> ok r then None else parsedBody r)"
    using assms by (auto simp: getFolderListing_def Let_def split: prod.splits sum.splits)
  from fetch_consumes [OF F] obtain cs where "pending s = cs @ r # pending s'" by blast
  moreover have "envelopeData resp = pagePayload r"
    unfolding R by (rule envelopeData_listing)
  ultimately show ?thesis by blast
qed

lemma getFolderListing_keeps_config:
  "config (snd (getFolderListing origin folderId start endIdx s)) = config s"
  by (rule getFolderListing_rel [where R = "\<lambda>s t. config t = config s"])
     (simp_all add: parseCookies_frame)

text \<open>
  With the library configured as the script is, and no row of type code -2 in what the
  backend serves, the two pagination loops return the same.
\<close>

lemma loop_legacy_eq:
  "origin BASE_URL = Some ''https://laserfiche.arcadiaca.gov'' \<Longrightarrow>
     config s = arcadiaConfig \<Longrightarrow>
     \<forall>r \<in> set (pending s). \<forall>dat. pagePayload r = Some dat \<longrightarrow>
        (\<forall>result \<in> set (pageRows dat). row_type result \<noteq> - 2) \<Longrightarrow>
     getAllEntries_loop_legacy folderId start totalCount firstFetch fname ents s
       = getAllEntries_loop origin folderId start totalCount firstFetch fname ents s"
proof (induction origin folderId start totalCount firstFetch fname ents s
    rule: getAllEntries_loop.induct)
  case (1 origin folderId start totalCount firstFetch fname ents s)
  note org = "1.prems"(1) and cfg = "1.prems"(2) and clean = "1.prems"(3)
  obtain x s1 where L: "getFolderListing origin folderId start (start + pageSize) s = (x, s1)"
    by (cases "getFolderListing origin folderId start (start + pageSize) s")
  have LL: "getFolderListing_legacy folderId start (start + pageSize) s = (x, s1)"
    using getFolderListing_legacy_eq [of origin s, OF org cfg] L by simp
  have K1: "config s1 = arcadiaConfig"
    using getFolderListing_keeps_config [of origin folderId start "start + pageSize" s] L
      cfg by simp
  show ?case
  proof (cases x)
    case (Inl e)
    with L LL show ?thesis
      by (subst getAllEntries_loop_legacy.simps) (simp add: loop_raises)
  next
    case (Inr resp)
    from getFolderListing_final [OF L [unfolded Inr]] obtain cs r where
      cs: "pending s = cs @ r # pending s1" and E: "envelopeData resp = pagePayload r"
      by blast
    have clean1: "\<forall>r \<in> set (pending s1). \<forall>dat. pagePayload r = Some dat \<longrightarrow>
        (\<forall>result \<in> set (pageRows dat). row_type result \<noteq> - 2)"
      using clean cs by auto
    show ?thesis
    proof (cases "envelopeData resp")
      case None
      with L LL Inr show ?thesis
        by (subst getAllEntries_loop_legacy.simps) (simp add: loop_no_data)
    next
      case (Some dat)
      have "r \<in> set (pending s)" using cs by simp
      moreover have "pagePayload r = Some dat" using E Some by simp
      ultimately have "\<forall>result \<in> set (pageRows dat). row_type result \<noteq> - 2"
        using clean by blast
      then have D: "decodePage_legacy dat = decodePage dat" by (rule decodePage_legacy_eq)
      define fname' where "fname' = (if firstFetch then nameOr (p_name dat) else fname)"
      define total' where "total' = (if firstFetch then totalOr (totalEntries dat) else totalCount)"
      define ents' where "ents' = ents @ decodePage dat"
      define start' where "start' = start + pageSize"
      have Ss: "getAllEntries_loop origin folderId start totalCount firstFetch fname ents s
          = (if start' < total'
             then getAllEntries_loop origin folderId start' total' False fname' ents' s1
             else (Inr \<lparr>folderName = fname', entries = ents'\<rparr>, s1))"
        unfolding fname'_def total'_def ents'_def start'_def
        using L [unfolded Inr] Some by (rule loop_page)
      have Sl: "getAllEntries_loop_legacy folderId start totalCount firstFetch fname ents s
          = (if start' < total'
             then getAllEntries_loop_legacy folderId start' total' False fname' ents' s1
             else (Inr \<lparr>folderName = fname', entries = ents'\<rparr>, s1))"
        using LL Inr Some D
        by (subst getAllEntries_loop_legacy.simps)
           (simp add: Let_def fname'_def total'_def ents'_def start'_def)
      show ?thesis
      proof (cases "start' < total'")
        case True
        have "getAllEntries_loop_legacy folderId start' total' False fname' ents' s1
            = getAllEntries_loop origin folderId start' total' False fname' ents' s1"
          using "1.IH" [OF L [symmetric] Inr Some fname'_def total'_def ents'_def start'_def
              True org K1 clean1] .
        with True show ?thesis by (simp add: Ss Sl)
      next
        case False
        then show ?thesis by (simp add: Ss Sl)
      qed
    qed
  qed
qed

lemma getAllEntries_legacy_eq:
  assumes "origin BASE_URL = Some ''https://laserfiche.arcadiaca.gov''"
    and "config s = arcadiaConfig"
    and "\<forall>r \<in> set (pending s). \<forall>dat. pagePayload r = Some dat \<longrightarrow>
        (\<forall>result \<in> set (pageRows dat). row_type result \<noteq> - 2)"
  shows "getAllEntries_legacy folderId s = getAllEntries origin folderId s"
  unfolding getAllEntries_legacy_def getAllEntries_def
  using assms by (rule loop_legacy_eq)

text \<open>
  C9. The two implementations differ on the type code -2: the library's table has the key
  \<open>DocumentAlt = -2\<close> and answers \<open>Document\<close>, the script's table has no such key and
  answers \<open>Unknown(-2)\<close>. A listing with one row of that type, fetched by the two
  \<open>getAllEntries\<close> from the same backend with the library configured as the script is,
  yields entries of different types.
\<close>

theorem legacy_alternate_document_code:
  "getEntryType_legacy (- 2) = ''Unknown(-2)''
   \<and> getEntryType (- 2) = ''Document''
   \<and> fst (getAllEntries_legacy 874714
        (newClient arcadiaConfig
           [fixturePage ''Agendas'' (Some 1)
              [\<lparr>row_name = ''Agenda'', entryId = 1, row_type = - 2, row_data = Some []\<rparr>] []]))
     = Inr \<lparr>folderName = ''Agendas'',
            entries = [\<lparr>entry_id = 1, entry_name = ''Agenda'', entry_type = ''Unknown(-2)'',
                         pageCount = None, template = None, creationDate = None,
                         modificationDate = None\<rparr>]\<rparr>
   \<and> fst (getAllEntries arcadiaOrigin 874714
        (newClient arcadiaConfig
           [fixturePage ''Agendas'' (Some 1)
              [\<lparr>row_name = ''Agenda'', entryId = 1, row_type = - 2, row_data = Some []\<rparr>] []]))
     = Inr \<lparr>folderName = ''Agendas'',
            entries = [\<lparr>entry_id = 1, entry_name = ''Agenda'', entry_type = ''Document'',
                         pageCount = None, template = None, creationDate = None,
                         modificationDate = None\<rparr>]\<rparr>"
proof (intro conjI)
  show "getEntryType_legacy (- 2) = ''Unknown(-2)''"
    by (simp add: getEntryType_legacy_def types_legacy_def numToString_def digits.simps
        digitChar_def)
  show "getEntryType (- 2) = ''Document''"
    by (simp add: getEntryType_def types_def)
  show "fst (getAllEntries_legacy 874714
        (newClient arcadiaConfig
           [fixturePage ''Agendas'' (Some 1)
              [\<lparr>row_name = ''Agenda'', entryId = 1, row_type = - 2, row_data = Some []\<rparr>] []]))
     = Inr \<lparr>folderName = ''Agendas'',
            entries = [\<lparr>entry_id = 1, entry_name = ''Agenda'', entry_type = ''Unknown(-2)'',
                         pageCount = None, template = None, creationDate = None,
                         modificationDate = None\<rparr>]\<rparr>"
    by (simp add: getAllEntries_legacy_def getAllEntries_loop_legacy.simps
        getFolderListing_legacy_def fetch_legacy.simps resolveUrl_legacy_def startsWith_def
        BASE_URL_def newClient_def fixturePage_def isRedirect_def parseCookies_def ok_def
        envelopeData_def decodePage_legacy_def toEntry_legacy_def cellAt_def
        getEntryType_legacy_def types_legacy_def numToString_def digits.simps digitChar_def
        nameOr_def totalOr_def pageSize_def Let_def)
  show "fst (getAllEntries arcadiaOrigin 874714
        (newClient arcadiaConfig
           [fixturePage ''Agendas'' (Some 1)
              [\<lparr>row_name = ''Agenda'', entryId = 1, row_type = - 2, row_data = Some []\<rparr>] []]))
     = Inr \<lparr>folderName = ''Agendas'',
            entries = [\<lparr>entry_id = 1, entry_name = ''Agenda'', entry_type = ''Document'',
                         pageCount = None, template = None, creationDate = None,
                         modificationDate = None\<rparr>]\<rparr>"
    by (simp add: getAllEntries_def getAllEntries_loop.simps getFolderListing_def fetch.simps
        resolveUrl_def startsWith_def newClient_def arcadiaConfig_def fixturePage_def
        isRedirect_def parseCookies_def ok_def envelopeData_def decodePage_def toEntry_def
        cellAt_def getEntryType_def types_def nameOr_def totalOr_def pageSize_def Let_def)
qed

end
